theory Spec2Isabelle
  imports Complex_Main "HOL-Library.Char_ord" "HOL-Library.List_Lexorder"
begin

section \<open>The key-value store\<close>

text \<open>
  The data-access layer (\<^verbatim>\<open>utils/db.ts\<close>) talks to Deno KV through \<^verbatim>\<open>get\<close>,
  \<^verbatim>\<open>getMany\<close> and \<^verbatim>\<open>atomic().check(..).set(..).delete(..).commit()\<close>. The store is
  a map from keys (arrays of key parts) to a value and the versionstamp of the commit
  that wrote it. Every successful commit draws a fresh versionstamp, here the successor
  of the last one.
\<close>

type_synonym key = "string list"

text \<open>
  The records of the source. Field names that would clash with each other or with a
  constant of HOL carry a prefix: \<^verbatim>\<open>id\<close> is \<open>item_id\<close>, \<open>comment_id\<close>, \<open>user_id\<close>; the
  fields of \<^verbatim>\<open>InitComment\<close> and \<^verbatim>\<open>InitVote\<close> start with \<open>c_\<close> and \<open>v_\<close>. A
  \<^verbatim>\<open>Date\<close> is its number of milliseconds since the epoch. The vote count \<open>score\<close> is a
  JavaScript number with an integer value; its arithmetic is that of binary64
  (\<open>round_binary64\<close> below).
\<close>

record InitItem =
  userId :: string
  title :: string
  url :: string

record Item = InitItem +
  item_id :: string
  createdAt :: int
  score :: int

record InitComment =
  c_userId :: string
  c_itemId :: string
  c_text :: string

record Comment = InitComment +
  comment_id :: string
  c_createdAt :: int

record InitVote =
  v_userId :: string
  v_itemId :: string

record InitUser =
  user_id :: string
  login :: string
  avatarUrl :: string
  stripeCustomerId :: string
  sessionId :: string

text \<open>
  A stored user object. \<^verbatim>\<open>setUserSession\<close> takes an \<^verbatim>\<open>Omit<User, "isSubscribed">\<close>
  and stores the spread of what it was given, so the property may be missing from the
  stored object: \<open>None\<close> is the missing property.
\<close>

record User = InitUser +
  isSubscribed :: "bool option"

datatype val =
    VNull
  | VUndefined
  | VItem Item
  | VComment Comment
  | VUser User

type_synonym versionstamp = nat

type_synonym kvstore = "key \<rightharpoonup> val \<times> versionstamp"

text \<open>What \<^verbatim>\<open>kv.get\<close> returns (\<^verbatim>\<open>Deno.KvEntryMaybe\<close>): for a key that is not stored, the
  value is \<^verbatim>\<open>null\<close> and so is the versionstamp.\<close>

record entry =
  e_key :: key
  e_value :: val
  e_versionstamp :: "versionstamp option"

definition entry_of :: "kvstore \<Rightarrow> key \<Rightarrow> entry" where
  "entry_of s k =
     (case s k of
        None \<Rightarrow> \<lparr>e_key = k, e_value = VNull, e_versionstamp = None\<rparr>
      | Some (v, vs) \<Rightarrow> \<lparr>e_key = k, e_value = v, e_versionstamp = Some vs\<rparr>)"

datatype mutation = Set key val | Delete key

text \<open>An atomic operation as built by \<^verbatim>\<open>kv.atomic()\<close>: the checks (a key with the
  versionstamp it must have, \<open>None\<close> for "must be absent") and the mutations.\<close>

record atomic =
  checks :: "(key \<times> versionstamp option) list"
  mutations :: "mutation list"

datatype log_entry = Warn string | Error string | Log string

text \<open>
  The world an operation runs in: the store, the last versionstamp, the console, and
  \<open>pending\<close>, the transactions of the other clients. The operations are \<^verbatim>\<open>async\<close>:
  at every \<^verbatim>\<open>await\<close> other clients may commit. \<open>pending\<close> holds, for each coming
  suspension point in order, the atomic operations that the others commit there.
\<close>

record world =
  store :: kvstore
  version :: versionstamp
  pending :: "atomic list list"
  console :: "log_entry list"

definition check_ok :: "kvstore \<Rightarrow> key \<times> versionstamp option \<Rightarrow> bool" where
  "check_ok s c = (map_option snd (s (fst c)) = snd c)"

fun apply_mutation :: "versionstamp \<Rightarrow> kvstore \<Rightarrow> mutation \<Rightarrow> kvstore" where
  "apply_mutation vs s (Set k v) = s(k \<mapsto> (v, vs))"
| "apply_mutation vs s (Delete k) = s(k := None)"

text \<open>\<^verbatim>\<open>commit()\<close>: all checks pass and every mutation is applied under one new
  versionstamp, or nothing changes and the result is \<^verbatim>\<open>{ ok: false }\<close>.\<close>

definition commit :: "atomic \<Rightarrow> world \<Rightarrow> bool \<times> world" where
  "commit a w =
     (if list_all (check_ok (store w)) (checks a)
      then (True, w\<lparr>store := foldl (apply_mutation (Suc (version w))) (store w) (mutations a),
                     version := Suc (version w)\<rparr>)
      else (False, w))"

definition others :: "atomic list \<Rightarrow> world \<Rightarrow> world" where
  "others ops w = foldl (\<lambda>w' a. snd (commit a w')) w ops"

definition suspend :: "world \<Rightarrow> world" where
  "suspend w =
     (case pending w of
        [] \<Rightarrow> w
      | ops # rest \<Rightarrow> others ops (w\<lparr>pending := rest\<rparr>))"

datatype error =
    ItemDoesNotExist
  | AssertionError key
  | CommitFailed
  | TypeError
  | TooManyRanges
  | FetchFailed
  | SyntaxError

datatype 'a outcome = Returned 'a | Threw error

definition kv_get :: "key \<Rightarrow> world \<Rightarrow> entry \<times> world" where
  "kv_get k w = (let w' = suspend w in (entry_of (store w') k, w'))"

text \<open>\<^verbatim>\<open>getMany\<close> reads all its keys in one snapshot and refuses more than ten
  (\<^verbatim>\<open>TypeError: too many ranges (max 10)\<close>, as the source notes).\<close>

definition kv_getMany :: "key list \<Rightarrow> world \<Rightarrow> (error + entry list) \<times> world" where
  "kv_getMany ks w =
     (let w' = suspend w
      in if 10 < length ks then (Inl TooManyRanges, w')
         else (Inr (map (entry_of (store w')) ks), w'))"

definition kv_commit :: "atomic \<Rightarrow> world \<Rightarrow> bool \<times> world" where
  "kv_commit a w = commit a (suspend w)"

definition isEntry :: "entry \<Rightarrow> bool" where
  "isEntry e = (e_versionstamp e \<noteq> None)"

definition check_entry :: "entry \<Rightarrow> key \<times> versionstamp option" where
  "check_entry e = (e_key e, e_versionstamp e)"

section \<open>Arithmetic on vote counts\<close>

text \<open>
  \<^verbatim>\<open>score++\<close> and \<^verbatim>\<open>score--\<close> add and subtract 1 in binary64: the exact result is
  rounded to the nearest number with a significand of 53 bits, a tie going to the even
  significand (IEEE 754). Every integer up to \<open>2 ^ 53\<close> in magnitude is such a number.
  Above that, \<open>binade a\<close> is the number of low bits that do not fit: it is the least
  \<open>e\<close> with \<open>a div 2 ^ e < 2 ^ 53\<close>, and the numbers representable there are the
  multiples of \<open>2 ^ e\<close>. (Adding 1 to a binary64 number never passes the largest one, so
  the overflow to \<^verbatim>\<open>Infinity\<close> does not arise.)
\<close>

function binade :: "nat \<Rightarrow> nat" where
  "binade a = (if a < 2 ^ 53 then 0 else Suc (binade (a div 2)))"
  by pat_completeness auto
termination
  by (relation "measure (\<lambda>a. a)") auto

declare binade.simps [simp del]

definition round_binary64 :: "int \<Rightarrow> int" where
  "round_binary64 m =
     (let a = nat \<bar>m\<bar>
      in if a \<le> 2 ^ 53 then m
         else
           (let u = 2 ^ binade a;
                q = a div u;
                r = a mod u;
                q' = (if u < 2 * r \<or> (2 * r = u \<and> odd q) then q + 1 else q)
            in sgn m * int (q' * u)))"

section \<open>Votes\<close>

text \<open>
  \<^verbatim>\<open>createVote\<close> and \<^verbatim>\<open>deleteVote\<close> loop \<^verbatim>\<open>while (!res.ok)\<close> with no bound. One
  run of the loop body either ends the call (\<open>Some\<close> of a return or a throw) or leaves
  \<^verbatim>\<open>res.ok\<close> false (\<open>None\<close>), and then the body runs again. The first argument of the
  loop bounds the number of iterations; the result \<open>None\<close> is "still looping when the
  bound was reached". A value under the items key that is neither \<^verbatim>\<open>null\<close> nor an item
  is outside the type that \<^verbatim>\<open>kv.get<Item>\<close> declares: on \<^verbatim>\<open>undefined\<close> the source throws
  a \<^verbatim>\<open>TypeError\<close>, as the model does; on an object of another shape the source would
  go on with a score of \<^verbatim>\<open>NaN\<close>, which the model does not follow and ends with
  \<open>TypeError\<close> as well.
\<close>

definition createVote_body :: "InitVote \<Rightarrow> world \<Rightarrow> unit outcome option \<times> world" where
  "createVote_body initVote w =
     (let itemKey = [''items'', v_itemId initVote];
          voteByUserKey = [''votes_by_users'', v_userId initVote, v_itemId initVote];
          (itemRes, w1) = kv_get itemKey w
      in case e_value itemRes of
           VNull \<Rightarrow> (Some (Threw ItemDoesNotExist), w1)
         | VItem item \<Rightarrow>
             (let item' = item\<lparr>score := round_binary64 (score item + 1)\<rparr>;
                  (ok, w2) = kv_commit
                     \<lparr>checks = [(voteByUserKey, None), check_entry itemRes],
                      mutations = [Set (e_key itemRes) (VItem item'), Set voteByUserKey VUndefined]\<rparr> w1
              in if ok then (Some (Returned ()), w2) else (None, w2))
         | _ \<Rightarrow> (Some (Threw TypeError), w1))"

fun createVote :: "nat \<Rightarrow> InitVote \<Rightarrow> world \<Rightarrow> (unit outcome \<times> world) option" where
  "createVote 0 initVote w = None"
| "createVote (Suc n) initVote w =
     (case createVote_body initVote w of
        (Some r, w') \<Rightarrow> Some (r, w')
      | (None, w') \<Rightarrow> createVote n initVote w')"

definition deleteVote_body :: "InitVote \<Rightarrow> world \<Rightarrow> unit outcome option \<times> world" where
  "deleteVote_body initVote w =
     (let itemKey = [''items'', v_itemId initVote];
          voteByUserKey = [''votes_by_users'', v_userId initVote, v_itemId initVote];
          (itemRes, w1) = kv_get itemKey w;
          (voteByUserRes, w2) = kv_get voteByUserKey w1
      in if e_value itemRes = VNull then (Some (Threw ItemDoesNotExist), w2)
         else if e_value voteByUserRes = VNull then (Some (Returned ()), w2)
         else case e_value itemRes of
           VItem item \<Rightarrow>
             (let item' = item\<lparr>score := round_binary64 (score item - 1)\<rparr>;
                  (ok, w3) = kv_commit
                     \<lparr>checks = [check_entry itemRes, check_entry voteByUserRes],
                      mutations = [Set (e_key itemRes) (VItem item'), Delete voteByUserKey]\<rparr> w2
              in if ok then (Some (Returned ()), w3) else (None, w3))
         | _ \<Rightarrow> (Some (Threw TypeError), w2))"

fun deleteVote :: "nat \<Rightarrow> InitVote \<Rightarrow> world \<Rightarrow> (unit outcome \<times> world) option" where
  "deleteVote 0 initVote w = None"
| "deleteVote (Suc n) initVote w =
     (case deleteVote_body initVote w of
        (Some r, w') \<Rightarrow> Some (r, w')
      | (None, w') \<Rightarrow> deleteVote n initVote w')"

section \<open>Comments\<close>

text \<open>
  \<^verbatim>\<open>createComment\<close>. The identifier drawn by \<^verbatim>\<open>crypto.randomUUID()\<close> and the time read
  by \<^verbatim>\<open>new Date()\<close> are arguments. The source wraps the body in \<^verbatim>\<open>while (!res.ok)\<close>,
  with \<^verbatim>\<open>res = { ok: false }\<close> before it, and the last statement of the body is
  \<^verbatim>\<open>return comment\<close>: the body runs once and the result of the commit is never looked
  at.
\<close>

definition createComment :: "string \<Rightarrow> int \<Rightarrow> InitComment \<Rightarrow> world \<Rightarrow> Comment outcome \<times> world" where
  "createComment uuid now initComment w =
     (let commentsByUserKey = [''comments_by_users'', c_userId initComment, uuid];
          commentsByItemKey = [''comments_by_item'', c_itemId initComment, uuid];
          comment = \<lparr>c_userId = c_userId initComment, c_itemId = c_itemId initComment,
                     c_text = c_text initComment, comment_id = uuid, c_createdAt = now\<rparr>;
          (ok, w1) = kv_commit
             \<lparr>checks = [(commentsByUserKey, None), (commentsByItemKey, None)],
              mutations = [Set commentsByUserKey (VComment comment),
                           Set commentsByItemKey (VComment comment)]\<rparr> w
      in (Returned comment, w1))"

section \<open>Items\<close>

text \<open>Decimal digits, for the status code in a log line and for \<^verbatim>\<open>toFixed\<close> below.\<close>

definition digit :: "nat \<Rightarrow> char" where
  "digit d = char_of (48 + d)"

function decimal :: "nat \<Rightarrow> string" where
  "decimal n = (if n < 10 then [digit n] else decimal (n div 10) @ [digit (n mod 10)])"
  by pat_completeness auto
termination
  by (relation "measure (\<lambda>n. n)") auto

declare decimal.simps [simp del]

text \<open>
  The event posted to the analytics service and what \<^verbatim>\<open>fetch\<close> can do with it: the
  promise rejects (a transport error), or it resolves to a response with a status and a
  body, \<open>None\<close> for a body that is not JSON (then \<^verbatim>\<open>resp.json()\<close> throws).
\<close>

record event =
  ev_userId :: string
  ev_id :: string
  ev_createdAt :: int
  ev_score :: int
  ev_title :: string
  ev_url :: string

datatype response = Rejected | Response nat "string option"

definition log_line :: "log_entry \<Rightarrow> world \<Rightarrow> world" where
  "log_line l w = w\<lparr>console := console w @ [l]\<rparr>"

text \<open>
  \<^verbatim>\<open>createItem\<close>. Arguments: \<open>fetch\<close>, the behaviour of the network; the identifier
  drawn by \<^verbatim>\<open>crypto.randomUUID()\<close>; the time read by \<^verbatim>\<open>new Date()\<close>. The item's
  \<^verbatim>\<open>createdAt\<close> is that \<^verbatim>\<open>Date\<close>, so of the conversion to seconds only the branch for
  an object with \<^verbatim>\<open>getTime\<close> can run. The call to \<^verbatim>\<open>fetch\<close> stands outside any
  \<^verbatim>\<open>try\<close>: a rejected promise is thrown on by \<^verbatim>\<open>await\<close>.
\<close>

definition createItem ::
  "(event \<Rightarrow> response) \<Rightarrow> string \<Rightarrow> int \<Rightarrow> InitItem \<Rightarrow> world \<Rightarrow> Item option outcome \<times> world" where
  "createItem fetch uuid now initItem w =
     (let itemKey = [''items'', uuid];
          item = \<lparr>userId = userId initItem, title = title initItem, url = url initItem,
                  item_id = uuid, createdAt = now, score = 0\<rparr>;
          (ok, w1) = kv_commit \<lparr>checks = [(itemKey, None)], mutations = [Set itemKey (VItem item)]\<rparr> w
      in if \<not> ok
         then (Returned None, log_line (Warn (''Failed to add new item with id: '' @ uuid)) w1)
         else
           (let createdAt' = createdAt item div 1000;
                w2 = suspend w1
            in case fetch \<lparr>ev_userId = userId item, ev_id = uuid, ev_createdAt = createdAt',
                            ev_score = score item, ev_title = title item, ev_url = url item\<rparr> of
                 Rejected \<Rightarrow> (Threw FetchFailed, w2)
               | Response status body \<Rightarrow>
                   if \<not> (200 \<le> status \<and> status \<le> 299)
                   then (Returned (Some item),
                         log_line (Error (''Failed to post '' @ uuid @ '' to tinybird - status: ''
                                          @ decimal status)) w2)
                   else (case body of
                           None \<Rightarrow> (Threw SyntaxError, suspend w2)
                         | Some data \<Rightarrow>
                             (Returned (Some item),
                              log_line (Log (''Tinybird response: '' @ data)) (suspend w2)))))"

section \<open>Users\<close>

definition usersKey :: "'a InitUser_scheme \<Rightarrow> key" where
  "usersKey user = [''users'', user_id user]"

definition usersByLoginKey :: "'a InitUser_scheme \<Rightarrow> key" where
  "usersByLoginKey user = [''users_by_login'', login user]"

definition usersBySessionKey :: "string \<Rightarrow> key" where
  "usersBySessionKey sid = [''users_by_session'', sid]"

definition usersByStripeCustomerKey :: "'a InitUser_scheme \<Rightarrow> key" where
  "usersByStripeCustomerKey user = [''users_by_stripe_customer'', stripeCustomerId user]"

definition createUser :: "InitUser \<Rightarrow> world \<Rightarrow> User outcome \<times> world" where
  "createUser user w =
     (let user' = \<lparr>user_id = user_id user, login = login user, avatarUrl = avatarUrl user,
                   stripeCustomerId = stripeCustomerId user, sessionId = sessionId user,
                   isSubscribed = Some False\<rparr>;
          (ok, w1) = kv_commit
             \<lparr>checks = [(usersKey user, None), (usersByLoginKey user, None),
                        (usersBySessionKey (sessionId user), None),
                        (usersByStripeCustomerKey user, None)],
              mutations = [Set (usersKey user) (VUser user'),
                           Set (usersByLoginKey user) (VUser user'),
                           Set (usersBySessionKey (sessionId user)) (VUser user'),
                           Set (usersByStripeCustomerKey user) (VUser user')]\<rparr> w
      in if \<not> ok then (Threw CommitFailed, w1) else (Returned user', w1))"

text \<open>\<^verbatim>\<open>forEach((res) => assertIsEntry(res))\<close>: the first entry without a versionstamp
  throws.\<close>

fun assertAllEntries :: "entry list \<Rightarrow> error option" where
  "assertAllEntries [] = None"
| "assertAllEntries (e # es) =
     (if \<not> isEntry e then Some (AssertionError (e_key e)) else assertAllEntries es)"

definition setUserSubscription :: "User \<Rightarrow> bool \<Rightarrow> world \<Rightarrow> unit outcome \<times> world" where
  "setUserSubscription user isSubscribed' w =
     (case kv_getMany [usersKey user, usersByLoginKey user,
                       usersBySessionKey (sessionId user), usersByStripeCustomerKey user] w of
        (Inl err, w1) \<Rightarrow> (Threw err, w1)
      | (Inr res, w1) \<Rightarrow>
          (case assertAllEntries res of
             Some err \<Rightarrow> (Threw err, w1)
           | None \<Rightarrow>
               (let user' = user\<lparr>isSubscribed := Some isSubscribed'\<rparr>;
                    (ok, w2) = kv_commit
                       \<lparr>checks = map check_entry res,
                        mutations = [Set (usersKey user) (VUser user'),
                                     Set (usersByLoginKey user) (VUser user'),
                                     Set (usersBySessionKey (sessionId user)) (VUser user'),
                                     Set (usersByStripeCustomerKey user) (VUser user')]\<rparr> w1
                in if \<not> ok then (Threw CommitFailed, w2) else (Returned (), w2))))"

text \<open>\<^verbatim>\<open>setUserSession\<close> reads the three copies that are not under the session key and
  checks that the new session key is absent. The order of the checks is the source's.\<close>

definition setUserSession :: "User \<Rightarrow> string \<Rightarrow> world \<Rightarrow> unit outcome \<times> world" where
  "setUserSession user sessionId' w =
     (case kv_getMany [usersKey user, usersByLoginKey user, usersByStripeCustomerKey user] w of
        (Inl err, w1) \<Rightarrow> (Threw err, w1)
      | (Inr res, w1) \<Rightarrow>
          (case assertAllEntries res of
             Some err \<Rightarrow> (Threw err, w1)
           | None \<Rightarrow>
               (let user' = user\<lparr>sessionId := sessionId'\<rparr>;
                    (ok, w2) = kv_commit
                       \<lparr>checks = map check_entry (take 2 res)
                                 @ [(usersBySessionKey sessionId', None)]
                                 @ map check_entry (drop 2 res),
                        mutations = [Set (usersKey user) (VUser user'),
                                     Set (usersByLoginKey user) (VUser user'),
                                     Set (usersBySessionKey sessionId') (VUser user'),
                                     Set (usersByStripeCustomerKey user) (VUser user')]\<rparr> w1
                in if \<not> ok then (Threw CommitFailed, w2) else (Returned (), w2))))"

text \<open>The four lookups. \<^verbatim>\<open>getUserBySessionId\<close> reads with eventual consistency first and
  reads again if that found nothing; with one copy of the store both reads see it.\<close>

definition getUserById :: "string \<Rightarrow> world \<Rightarrow> val \<times> world" where
  "getUserById i w = (let (res, w1) = kv_get [''users'', i] w in (e_value res, w1))"

definition getUserByLogin :: "string \<Rightarrow> world \<Rightarrow> val \<times> world" where
  "getUserByLogin l w = (let (res, w1) = kv_get [''users_by_login'', l] w in (e_value res, w1))"

definition getUserBySessionId :: "string \<Rightarrow> world \<Rightarrow> val \<times> world" where
  "getUserBySessionId sid w =
     (let (res, w1) = kv_get [''users_by_session'', sid] w
      in if e_value res = VNull \<or> e_value res = VUndefined
         then (let (res', w2) = kv_get [''users_by_session'', sid] w1 in (e_value res', w2))
         else (e_value res, w1))"

definition getUserByStripeCustomerId :: "string \<Rightarrow> world \<Rightarrow> val \<times> world" where
  "getUserByStripeCustomerId c w =
     (let (res, w1) = kv_get [''users_by_stripe_customer'', c] w in (e_value res, w1))"

text \<open>\<^verbatim>\<open>slice(a, b)\<close> of an array or a string, for indices that are not negative.\<close>

definition slice :: "'a list \<Rightarrow> nat \<Rightarrow> nat \<Rightarrow> 'a list" where
  "slice xs a b = take (b - a) (drop a xs)"

text \<open>
  The generator \<^verbatim>\<open>batchify\<close>: \<^verbatim>\<open>for (let i = 0; i < arr.length; i += n) yield
  arr.slice(i, i + n)\<close>. With \<^verbatim>\<open>n = 0\<close> the loop never ends, so the list of all
  batches is an option: \<open>None\<close> is the loop that does not end.
\<close>

partial_function (option) batchify_from :: "'a list \<Rightarrow> nat \<Rightarrow> nat \<Rightarrow> 'a list list option" where
  "batchify_from arr n i =
     (if i < length arr
      then Option.bind (batchify_from arr n (i + n)) (\<lambda>rest. Some (slice arr i (i + n) # rest))
      else Some [])"

definition batchify :: "'a list \<Rightarrow> nat \<Rightarrow> 'a list list option" where
  "batchify arr n = batchify_from arr n 0"

text \<open>The body of the loop of \<^verbatim>\<open>getUsersByIds\<close>: one \<^verbatim>\<open>getMany\<close> for each batch, the
  values of its entries pushed onto \<^verbatim>\<open>users\<close>.\<close>

fun push_batches :: "key list list \<Rightarrow> val list \<Rightarrow> world \<Rightarrow> val list outcome \<times> world" where
  "push_batches [] users w = (Returned users, w)"
| "push_batches (batch # rest) users w =
     (case kv_getMany batch w of
        (Inl err, w1) \<Rightarrow> (Threw err, w1)
      | (Inr entries, w1) \<Rightarrow> push_batches rest (users @ map e_value entries) w1)"

definition getUsersByIds :: "string list \<Rightarrow> world \<Rightarrow> (val list outcome \<times> world) option" where
  "getUsersByIds ids w =
     (let keys = map (\<lambda>i. [''users'', i]) ids
      in case batchify keys 10 of
           None \<Rightarrow> None
         | Some batches \<Rightarrow> Some (push_batches batches [] w))"

section \<open>The ranking score\<close>

text \<open>
  A JavaScript number is \<^verbatim>\<open>NaN\<close>, an infinity, or a finite binary64 value, which is a
  rational number; \<open>Finite x\<close> is the number whose exact value is \<open>x\<close>. The literal
  \<^verbatim>\<open>0.1\<close> is the binary64 value nearest to one tenth, \<open>3602879701896397 / 2 ^ 55\<close>.
\<close>

datatype double = NaN | NegInfinity | Finite rat | Infinity

definition double_0_1 :: double where
  "double_0_1 = Finite (3602879701896397 / 36028797018963968)"

fun Math_max :: "double \<Rightarrow> double \<Rightarrow> double" where
  "Math_max NaN b = NaN"
| "Math_max a NaN = NaN"
| "Math_max Infinity b = Infinity"
| "Math_max a Infinity = Infinity"
| "Math_max NegInfinity b = b"
| "Math_max a NegInfinity = a"
| "Math_max (Finite x) (Finite y) = Finite (max x y)"

fun Math_min :: "double \<Rightarrow> double \<Rightarrow> double" where
  "Math_min NaN b = NaN"
| "Math_min a NaN = NaN"
| "Math_min NegInfinity b = NegInfinity"
| "Math_min a NegInfinity = NegInfinity"
| "Math_min Infinity b = b"
| "Math_min a Infinity = a"
| "Math_min (Finite x) (Finite y) = Finite (min x y)"

text \<open>
  \<^verbatim>\<open>Number.prototype.toFixed(f)\<close> as ECMA-262 defines it for \<open>0 \<le> x < 10 ^ 21\<close>: \<open>n\<close> is
  the integer for which \<open>n / 10 ^ f - x\<close> is closest to zero, the larger one of two;
  its decimal digits are padded with zeros on the left to \<open>f + 1\<close> digits and the point
  is put before the last \<open>f\<close>. (From \<open>10 ^ 21\<close> on JavaScript changes to the exponent
  notation, which \<open>fixed\<close> does not follow; the values formatted here are at most 1.)
\<close>

definition fixed :: "nat \<Rightarrow> rat \<Rightarrow> string" where
  "fixed f x =
     (let n = nat \<lfloor>x * 10 ^ f + 1 / 2\<rfloor>;
          m = decimal n;
          k = length m;
          m' = (if k \<le> f then replicate (f + 1 - k) CHR ''0'' @ m else m);
          k' = (if k \<le> f then f + 1 else k)
      in if f \<noteq> 0 then take (k' - f) m' @ ''.'' @ drop (k' - f) m' else m')"

fun toFixed :: "nat \<Rightarrow> double \<Rightarrow> string" where
  "toFixed f NaN = ''NaN''"
| "toFixed f Infinity = ''Infinity''"
| "toFixed f NegInfinity = ''-Infinity''"
| "toFixed f (Finite x) = (if x < 0 then ''-'' @ fixed f (- x) else fixed f x)"

datatype js_value = JNumber double | JString string

text \<open>
  \<^verbatim>\<open>computeZeroToOneScore\<close>. Its first argument \<open>val\<close> is the number that the source
  computes for \<^verbatim>\<open>val\<close> from \<^verbatim>\<open>score\<close>, \<^verbatim>\<open>timestampMs\<close> and the clock, with
  \<^verbatim>\<open>Math.sqrt\<close>, \<^verbatim>\<open>Math.log\<close> and \<^verbatim>\<open>**\<close> in floating point. That computation is not
  modelled: what is proved about the result holds whatever number it yields.
\<close>

definition computeZeroToOneScore :: "double \<Rightarrow> int \<Rightarrow> int \<Rightarrow> js_value" where
  "computeZeroToOneScore val score' timestampMs =
     (if score' = 0 then JNumber (Finite (1 / 2))
      else
        (let bounded = Math_min (Finite 1) (Math_max double_0_1 val)
         in JString (slice (toFixed 18 bounded) 2 18)))"

text \<open>
  The expression for \<^verbatim>\<open>val\<close> read over the real numbers, for a vote count \<open>score'\<close> and
  an age \<^verbatim>\<open>days\<close> (which the source takes as at least 0.01). This is not what the
  source computes, which rounds after every operation; it serves only to see in which
  part of the clamp's range the blend of a vote count lies.
\<close>

definition blend_exact :: "real \<Rightarrow> real \<Rightarrow> real" where
  "blend_exact score' days =
     0.2 * (1 / (2 powr (sqrt (sqrt (1 + days)))))
     + 0.8 * (1 + (1 / (2 * ln (1 + score')))) / (1 + (1 / (1 * ln (1 + score'))))"

text \<open>Fixed-width decimal digits, most significant first; used to describe what
  \<open>fixed\<close> prints.\<close>

fun digits :: "nat \<Rightarrow> nat \<Rightarrow> string" where
  "digits 0 n = []"
| "digits (Suc w) n = digits w (n div 10) @ [digit (n mod 10)]"

section \<open>Notions used in the statements\<close>

text \<open>The world in which iteration \<open>k\<close> of the loop of \<^verbatim>\<open>createVote\<close> starts, when the
  iterations before it all left \<^verbatim>\<open>res.ok\<close> false.\<close>

definition createVote_start :: "InitVote \<Rightarrow> nat \<Rightarrow> world \<Rightarrow> world" where
  "createVote_start initVote k w = ((\<lambda>u. snd (createVote_body initVote u)) ^^ k) w"

text \<open>The object \<^verbatim>\<open>{ ...user, isSubscribed: b }\<close>.\<close>

definition subscribed :: "InitUser \<Rightarrow> bool option \<Rightarrow> User" where
  "subscribed user b =
     \<lparr>user_id = user_id user, login = login user, avatarUrl = avatarUrl user,
      stripeCustomerId = stripeCustomerId user, sessionId = sessionId user, isSubscribed = b\<rparr>"

text \<open>The four keys of a user record, the session key being that of \<open>sid\<close>.\<close>

definition user_keys_of :: "'a InitUser_scheme \<Rightarrow> string \<Rightarrow> key set" where
  "user_keys_of u sid =
     {usersKey u, usersByLoginKey u, usersBySessionKey sid, usersByStripeCustomerKey u}"

text \<open>All four lookups find the same stored object \<open>u\<close>: under the primary key and
  under the keys of \<open>u\<close>'s login, session and Stripe customer.\<close>

definition four_copies :: "kvstore \<Rightarrow> User \<Rightarrow> bool" where
  "four_copies s u \<longleftrightarrow>
     map_option fst (s (usersKey u)) = Some (VUser u)
   \<and> map_option fst (s (usersByLoginKey u)) = Some (VUser u)
   \<and> map_option fst (s (usersBySessionKey (sessionId u))) = Some (VUser u)
   \<and> map_option fst (s (usersByStripeCustomerKey u)) = Some (VUser u)"

text \<open>A caller that holds a user's record and makes one call after the other with
  it, taking the updated record after every call that returns.\<close>

datatype user_call = SetSubscription bool | SetSession string

fun user_calls :: "user_call list \<Rightarrow> User \<Rightarrow> world \<Rightarrow> User \<times> world" where
  "user_calls [] u w = (u, w)"
| "user_calls (SetSubscription b # cs) u w =
     (case setUserSubscription u b w of
        (Returned _, w') \<Rightarrow> user_calls cs (u\<lparr>isSubscribed := Some b\<rparr>) w'
      | (Threw _, w') \<Rightarrow> user_calls cs u w')"
| "user_calls (SetSession sid # cs) u w =
     (case setUserSession u sid w of
        (Returned _, w') \<Rightarrow> user_calls cs (u\<lparr>sessionId := sid\<rparr>) w'
      | (Threw _, w') \<Rightarrow> user_calls cs u w')"

subsection \<open>Example worlds\<close>

definition vote_example :: InitVote where
  "vote_example = \<lparr>v_userId = ''u1'', v_itemId = ''i1''\<rparr>"

definition item_example :: Item where
  "item_example = \<lparr>userId = ''u0'', title = ''t'', url = ''x'', item_id = ''i1'', createdAt = 0, score = 3\<rparr>"

definition empty_world :: world where
  "empty_world = \<lparr>store = Map.empty, version = 0, pending = [], console = []\<rparr>"

definition quiet_world :: world where
  "quiet_world =
     \<lparr>store = [[''items'', ''i1''] \<mapsto> (VItem item_example, 1)],
      version = 1, pending = [], console = []\<rparr>"

text \<open>An item whose score is the first integer that \<^verbatim>\<open>score++\<close> cannot raise.\<close>

definition limit_world :: world where
  "limit_world =
     \<lparr>store = [[''items'', ''i1''] \<mapsto> (VItem (item_example\<lparr>score := 2 ^ 53\<rparr>), 1)],
      version = 1, pending = [], console = []\<rparr>"

text \<open>Between the read and the commit of the first iteration another client rewrites
  the item.\<close>

definition contended_world :: world where
  "contended_world =
     \<lparr>store = [[''items'', ''i1''] \<mapsto> (VItem item_example, 1)],
      version = 1,
      pending = [[], [\<lparr>checks = [], mutations = [Set [''items'', ''i1''] (VItem (item_example\<lparr>score := 7\<rparr>))]\<rparr>]],
      console = []\<rparr>"

definition voted_world :: world where
  "voted_world =
     \<lparr>store = [[''items'', ''i1''] \<mapsto> (VItem (item_example\<lparr>score := 8\<rparr>), 3),
               [''votes_by_users'', ''u1'', ''i1''] \<mapsto> (VUndefined, 3)],
      version = 3, pending = [], console = []\<rparr>"

definition init_user_example :: InitUser where
  "init_user_example =
     \<lparr>user_id = ''7'', login = ''ann'', avatarUrl = ''a.png'', stripeCustomerId = ''cus_1'',
      sessionId = ''s1''\<rparr>"

definition registered_world :: world where
  "registered_world = snd (createUser init_user_example empty_world)"

definition subscribed_world :: world where
  "subscribed_world =
     snd (setUserSubscription (subscribed init_user_example (Some False)) True registered_world)"

definition moved_world :: world where
  "moved_world =
     snd (setUserSession (subscribed init_user_example (Some True)) ''s2'' subscribed_world)"

definition users_world :: world where
  "users_world =
     \<lparr>store = [[''users'', ''7''] \<mapsto> (VUser (subscribed init_user_example (Some False)), 1)],
      version = 1, pending = [], console = []\<rparr>"

text \<open>A store that already holds a comment under the identifier that is drawn next.\<close>

definition comment_init_example :: InitComment where
  "comment_init_example = \<lparr>c_userId = ''u1'', c_itemId = ''i1'', c_text = ''hello''\<rparr>"

definition collision_world :: world where
  "collision_world =
     \<lparr>store = [[''comments_by_users'', ''u1'', ''c1''] \<mapsto>
                 (VComment \<lparr>c_userId = ''u1'', c_itemId = ''i1'', c_text = ''first'',
                            comment_id = ''c1'', c_createdAt = 10\<rparr>, 1),
               [''comments_by_item'', ''i1'', ''c1''] \<mapsto>
                 (VComment \<lparr>c_userId = ''u1'', c_itemId = ''i1'', c_text = ''first'',
                            comment_id = ''c1'', c_createdAt = 10\<rparr>, 1)],
      version = 1, pending = [], console = []\<rparr>"

text \<open>A network on which the request fails: the promise of \<^verbatim>\<open>fetch\<close> rejects.\<close>

definition fetch_rejects :: "event \<Rightarrow> response" where
  "fetch_rejects ev = Rejected"

definition init_item_example :: InitItem where
  "init_item_example = \<lparr>userId = ''u0'', title = ''t'', url = ''x''\<rparr>"

section \<open>Properties of the ranking score\<close>

subsection \<open>Decimal digits\<close>

lemma digit_0: "digit 0 = CHR ''0''"
  by code_simp

lemma of_char_digit: "d < 10 \<Longrightarrow> (of_char (digit d) :: nat) = 48 + d"
  by (simp add: digit_def)


lemma digit_eq_iff: "d < 10 \<Longrightarrow> e < 10 \<Longrightarrow> (digit d = digit e) = (d = e)"
  by (metis of_char_digit add_left_cancel)

lemma length_digits: "length (digits w n) = w"
  by (induction w arbitrary: n) simp_all

lemma digits_zero: "digits w 0 = replicate w CHR ''0''"
  by (induction w) (simp_all add: digit_0 replicate_append_same)

lemma length_decimal_pos: "0 < length (decimal n)"
  by (subst decimal.simps) simp

lemma decimal_pad:
  "0 < w \<Longrightarrow> n < 10 ^ w \<Longrightarrow>
     length (decimal n) \<le> w \<and> replicate (w - length (decimal n)) CHR ''0'' @ decimal n = digits w n"
proof (induction w arbitrary: n)
  case 0
  then show ?case by simp
next
  case (Suc w)
  show ?case
  proof (cases "n < 10")
    case True
    then have d: "decimal n = [digit n]" by (subst decimal.simps) simp
    from True have "n div 10 = 0" by simp
    with True d show ?thesis by (simp add: digits_zero)
  next
    case False
    then have d: "decimal n = decimal (n div 10) @ [digit (n mod 10)]"
      by (subst decimal.simps) simp
    from False Suc.prems have w: "0 < w" by (cases w) auto
    from Suc.prems have "n div 10 < 10 ^ w" by (simp add: less_mult_imp_div_less mult.commute)
    from Suc.IH [OF w this] d show ?thesis by (simp add: Suc_diff_le)
  qed
qed

lemma digits_add: "digits (a + b) n = digits a (n div 10 ^ b) @ digits b n"
proof (induction b arbitrary: n)
  case 0
  then show ?case by simp
next
  case (Suc b)
  have "n div 10 div 10 ^ b = n div 10 ^ Suc b" by (simp add: div_mult2_eq)
  with Suc [of "n div 10"] show ?case by simp
qed

lemma fixed_digits:
  assumes "f \<noteq> 0" and "nat \<lfloor>x * 10 ^ f + 1 / 2\<rfloor> < 10 ^ Suc f"
  shows "fixed f x = digits 1 (nat \<lfloor>x * 10 ^ f + 1 / 2\<rfloor> div 10 ^ f) @ ''.'' @ digits f (nat \<lfloor>x * 10 ^ f + 1 / 2\<rfloor>)"
proof -
  define n where "n = nat \<lfloor>x * 10 ^ f + 1 / 2\<rfloor>"
  from assms(2) have "n < 10 ^ Suc f" by (simp add: n_def)
  from decimal_pad [OF _ this] have len: "length (decimal n) \<le> Suc f"
    and pad: "replicate (Suc f - length (decimal n)) CHR ''0'' @ decimal n = digits (Suc f) n"
    by simp_all
  have split: "digits (Suc f) n = digits 1 (n div 10 ^ f) @ digits f n"
    using digits_add [of 1 f n] by simp
  have "fixed f x = digits 1 (n div 10 ^ f) @ ''.'' @ digits f n"
  proof (cases "length (decimal n) \<le> f")
    case True
    then have "fixed f x = take 1 (digits (Suc f) n) @ ''.'' @ drop 1 (digits (Suc f) n)"
      using assms(1) pad by (simp add: fixed_def Let_def n_def [symmetric])
    then show ?thesis unfolding split by (simp add: length_digits)
  next
    case False
    with len have k: "length (decimal n) = Suc f" by simp
    with pad have "decimal n = digits (Suc f) n" by simp
    with False k have "fixed f x = take 1 (digits (Suc f) n) @ ''.'' @ drop 1 (digits (Suc f) n)"
      using assms(1) by (simp add: fixed_def Let_def n_def [symmetric])
    then show ?thesis unfolding split by (simp add: length_digits)
  qed
  then show ?thesis by (simp add: n_def)
qed



subsection \<open>The clamped value and its rendering\<close>

lemma floor_rat_numeral_divide: "\<lfloor>numeral a / numeral b :: rat\<rfloor> = numeral a div numeral b"
  by (metis floor_divide_of_int_eq of_int_numeral)

lemma bounded_range:
  assumes "Math_min (Finite 1) (Math_max double_0_1 val) = Finite b"
  shows "1 / 10 \<le> b \<and> b \<le> 1"
  using assms by (cases val) (auto simp: double_0_1_def min_def max_def split: if_splits)

lemma bounded_eq:
  "val \<noteq> NaN \<Longrightarrow>
     Math_min (Finite 1) (Math_max double_0_1 val) =
       Finite (case val of Finite x \<Rightarrow> min 1 (max (3602879701896397 / 36028797018963968) x)
               | Infinity \<Rightarrow> 1 | _ \<Rightarrow> 3602879701896397 / 36028797018963968)"
  by (cases val) (simp_all add: double_0_1_def)

lemma bounded_Finite:
  "val \<noteq> NaN \<Longrightarrow> \<exists>b. Math_min (Finite 1) (Math_max double_0_1 val) = Finite b"
  using bounded_eq by blast

lemma bounded_NaN: "Math_min (Finite 1) (Math_max double_0_1 NaN) = NaN"
  by (simp add: double_0_1_def)

lemma scaled_le:
  assumes "0 \<le> b" "b \<le> (1::rat)"
  shows "nat \<lfloor>b * 10 ^ 18 + 1 / 2\<rfloor> \<le> 10 ^ 18"
proof -
  define z where "z = \<lfloor>b * 10 ^ 18 + 1 / 2\<rfloor>"
  from assms have "b * 10 ^ 18 + 1 / 2 < of_int (10 ^ 18 + 1)" by simp
  then have "z < 10 ^ 18 + 1" unfolding z_def by (rule iffD2 [OF floor_less_iff])
  then have "nat z \<le> 10 ^ 18" by simp
  then show ?thesis by (simp only: z_def)
qed

lemma slice_fixed:
  assumes "0 \<le> b" "b \<le> (1::rat)"
  shows "slice (fixed 18 b) 2 18 = digits 16 (nat \<lfloor>b * 10 ^ 18 + 1 / 2\<rfloor> div 100)"
proof -
  define n where "n = nat \<lfloor>b * 10 ^ 18 + 1 / 2\<rfloor>"
  from scaled_le [OF assms] have "n < 10 ^ Suc 18" by (simp add: n_def)
  with fixed_digits [of 18 b]
  have f: "fixed 18 b = digits 1 (n div 10 ^ 18) @ ''.'' @ digits 18 n" by (simp add: n_def)
  have "digits 18 n = digits 16 (n div 100) @ digits 2 n"
    using digits_add [of 16 2 n] by simp
  then have "slice (fixed 18 b) 2 18 = digits 16 (n div 100)"
    unfolding f by (simp add: slice_def length_digits)
  then show ?thesis by (simp add: n_def)
qed

lemma score_digits:
  assumes "score' \<noteq> 0" and "Math_min (Finite 1) (Math_max double_0_1 val) = Finite b"
  shows "computeZeroToOneScore val score' t = JString (digits 16 (nat \<lfloor>b * 10 ^ 18 + 1 / 2\<rfloor> div 100))"
proof -
  from bounded_range [OF assms(2)] have "0 \<le> b" "b \<le> 1" by simp_all
  from slice_fixed [OF this] assms \<open>0 \<le> b\<close> show ?thesis
    by (simp add: computeZeroToOneScore_def)
qed

lemma digit_values:
  "digit 0 = CHR ''0''" "digit 1 = CHR ''1''" "digit (Suc 0) = CHR ''1''" "digit 2 = CHR ''2''"
  "digit 3 = CHR ''3''" "digit 4 = CHR ''4''" "digit 5 = CHR ''5''" "digit 6 = CHR ''6''"
  "digit 7 = CHR ''7''" "digit 8 = CHR ''8''" "digit 9 = CHR ''9''"
  by code_simp+

lemma digits_numeral:
  "digits (numeral k) n = digits (pred_numeral k) (n div 10) @ [digit (n mod 10)]"
  by (simp only: numeral_eq_Suc [of k] digits.simps)

lemma score_three_quarters:
  "computeZeroToOneScore (Finite (3 / 4)) 5 0 = JString ''7500000000000000''"
  by (subst score_digits [where b = "3 / 4"])
     (simp_all add: double_0_1_def floor_rat_numeral_divide digits_numeral digit_values)


lemma toFixed_three_quarters: "toFixed 18 (Finite (3 / 4)) = ''0.750000000000000000''"
  by (simp add: fixed_digits floor_rat_numeral_divide digits_numeral digit_values)




subsection \<open>A vote count of zero\<close>

text \<open>
  Claim C5 says that \<^verbatim>\<open>computeZeroToOneScore(0, t)\<close> is the string \<^verbatim>\<open>"5"\<close> followed by
  seventeen \<^verbatim>\<open>"0"\<close>. The source returns at \<^verbatim>\<open>if (score === 0) return 0.5\<close>, before
  anything is formatted: the result is the number 0.5 and no string.
\<close>

theorem computeZeroToOneScore_zero_not_digit_string:
  "computeZeroToOneScore (Finite (3 / 4)) 0 0 \<noteq> JString ''500000000000000000''"
  by (simp add: computeZeroToOneScore_def)

text \<open>
  C5 as amended: for every timestamp (and whatever the floating-point computation would
  have given), \<^verbatim>\<open>computeZeroToOneScore(0, t)\<close> returns the number 0.5.
\<close>

theorem computeZeroToOneScore_zero_is_number:
  "computeZeroToOneScore val 0 timestampMs = JNumber (Finite (1 / 2))"
  by (simp add: computeZeroToOneScore_def)

subsection \<open>The digits that are returned\<close>

text \<open>
  Claim C6 says that for a vote count other than zero the result is all 18 fractional
  digits of the clamped value. \<^verbatim>\<open>toFixed(18)\<close> gives 20 characters and \<^verbatim>\<open>slice(2, 18)\<close>
  keeps those at the indices 2 to 17: at the clamped value 0.75 the rendering is
  \<^verbatim>\<open>0.750000000000000000\<close> and the result has 16 digits.
\<close>

theorem computeZeroToOneScore_not_eighteen_digits:
  "toFixed 18 (Math_min (Finite 1) (Math_max double_0_1 (Finite (3 / 4)))) = ''0.750000000000000000''
   \<and> computeZeroToOneScore (Finite (3 / 4)) 5 0 = JString ''7500000000000000''
   \<and> computeZeroToOneScore (Finite (3 / 4)) 5 0 \<noteq> JString ''750000000000000000''"
  using toFixed_three_quarters score_three_quarters by (simp add: double_0_1_def)

text \<open>
  C6 as amended: for every vote count other than zero and every timestamp for which the
  blended value is a number (not \<^verbatim>\<open>NaN\<close>), the clamped value is rendered as one digit, a
  point and 18 fractional digits, and the result is the first 16 of these 18 digits: a
  string of length 16.
\<close>

theorem computeZeroToOneScore_sixteen_digits:
  assumes "score' \<noteq> 0" and "val \<noteq> NaN"
  shows "\<exists>b i frac.
           Math_min (Finite 1) (Math_max double_0_1 val) = Finite b
         \<and> toFixed 18 (Finite b) = i # ''.'' @ frac
         \<and> length frac = 18
         \<and> computeZeroToOneScore val score' timestampMs = JString (take 16 frac)
         \<and> length (take 16 frac) = 16"
proof -
  from bounded_Finite [OF assms(2)] obtain b
    where b: "Math_min (Finite 1) (Math_max double_0_1 val) = Finite b" ..
  from bounded_range [OF b] have range: "0 \<le> b" "b \<le> 1" by simp_all
  define n where "n = nat \<lfloor>b * 10 ^ 18 + 1 / 2\<rfloor>"
  from scaled_le [OF range] have "n < 10 ^ Suc 18" by (simp add: n_def)
  with fixed_digits [of 18 b] range
  have rendering: "toFixed 18 (Finite b) = digit (n div 10 ^ 18 mod 10) # ''.'' @ digits 18 n"
    by (simp add: n_def)
  have "digits 18 n = digits 16 (n div 100) @ digits 2 n"
    using digits_add [of 16 2 n] by simp
  then have first: "take 16 (digits 18 n) = digits 16 (n div 100)"
    by (simp add: length_digits)
  from score_digits [OF assms(1) b, of timestampMs]
  have "computeZeroToOneScore val score' timestampMs = JString (digits 16 (n div 100))"
    by (simp only: n_def)
  then have "computeZeroToOneScore val score' timestampMs = JString (take 16 (digits 18 n))"
    by (simp only: first)
  with b rendering show ?thesis
    by (intro exI [of _ b] exI [of _ "digit (n div 10 ^ 18 mod 10)"] exI [of _ "digits 18 n"])
       (simp add: length_digits)
qed

theorem computeZeroToOneScore_sixteen_digits_witness:
  "(5::int) \<noteq> 0 \<and> Finite (3 / 4) \<noteq> NaN
   \<and> (\<exists>b i frac.
           Math_min (Finite 1) (Math_max double_0_1 (Finite (3 / 4))) = Finite b
         \<and> toFixed 18 (Finite b) = i # ''.'' @ frac
         \<and> length frac = 18
         \<and> computeZeroToOneScore (Finite (3 / 4)) 5 0 = JString (take 16 frac)
         \<and> length (take 16 frac) = 16)"
proof -
  have h1: "(5::int) \<noteq> 0" by simp
  have h2: "Finite (3 / 4) \<noteq> NaN" by simp
  from computeZeroToOneScore_sixteen_digits [OF h1 h2, of 0] h1 h2 show ?thesis by blast
qed

subsection \<open>String order and numeric order\<close>

text \<open>Where the blend of a vote count lies, in exact arithmetic: above 1/2 and below
  9/10.\<close>

lemma ln_two_third: "1 / 3 \<le> ln (2::real)"
proof -
  have "exp (1 / 3 :: real) \<le> 1 + 1 / 3 + (1 / 3)\<^sup>2" by (rule exp_bound) simp_all
  also have "\<dots> \<le> 2" by (simp add: power2_eq_square)
  finally have "exp (1 / 3 :: real) \<le> 2" .
  then show ?thesis by (rule iffD2 [OF ln_ge_iff [OF zero_less_numeral]])
qed

lemma vote_term_range:
  fixes l :: real
  assumes "1 / 3 \<le> l"
  shows "1 / 2 \<le> 0.8 * (1 + (1 / (2 * l))) / (1 + (1 / (1 * l)))"
    and "0.8 * (1 + (1 / (2 * l))) / (1 + (1 / (1 * l))) < 8 / 10"
proof -
  define x where "x = 1 / l"
  from assms have pos: "0 < l" by simp
  then have x: "0 < x" by (simp add: x_def)
  from assms pos have "1 \<le> 3 * l" by simp
  with pos have x3: "x \<le> 3" by (simp add: x_def field_simps)
  have a: "1 / (2 * l) = x / 2" and b: "1 / (1 * l) = x" by (simp_all add: x_def)
  from x have den: "0 < 1 + x" by simp
  from x3 have "1 / 2 * (1 + x) \<le> 0.8 * (1 + x / 2)" by simp
  with den have "1 / 2 \<le> 0.8 * (1 + x / 2) / (1 + x)" by (simp only: pos_le_divide_eq)
  then show "1 / 2 \<le> 0.8 * (1 + (1 / (2 * l))) / (1 + (1 / (1 * l)))" by (simp only: a b)
  from x have "0.8 * (1 + x / 2) < 8 / 10 * (1 + x)" by simp
  with den have "0.8 * (1 + x / 2) / (1 + x) < 8 / 10" by (simp only: pos_divide_less_eq)
  then show "0.8 * (1 + (1 / (2 * l))) / (1 + (1 / (1 * l))) < 8 / 10" by (simp only: a b)
qed

lemma age_term_range:
  fixes days :: real
  assumes "0 \<le> days"
  shows "0 < 0.2 * (1 / (2 powr (sqrt (sqrt (1 + days)))))"
    and "0.2 * (1 / (2 powr (sqrt (sqrt (1 + days))))) \<le> 1 / 10"
proof -
  show "0 < 0.2 * (1 / (2 powr (sqrt (sqrt (1 + days)))))" by simp
  from assms have "1 \<le> sqrt (sqrt (1 + days))" by simp
  then have "2 powr 1 \<le> 2 powr (sqrt (sqrt (1 + days)))" by (intro powr_mono) simp_all
  then have "2 \<le> 2 powr (sqrt (sqrt (1 + days)))" by simp
  then have "1 / (2 powr (sqrt (sqrt (1 + days)))) \<le> 1 / 2"
    by (simp add: field_simps)
  then show "0.2 * (1 / (2 powr (sqrt (sqrt (1 + days))))) \<le> 1 / 10" by simp
qed

lemma blend_exact_range:
  assumes "1 \<le> score'" and "1 / 100 \<le> days"
  shows "1 / 2 < blend_exact score' days \<and> blend_exact score' days < 9 / 10"
proof -
  from assms(1) have "ln 2 \<le> ln (1 + score')" by simp
  with ln_two_third have l: "1 / 3 \<le> ln (1 + score')" by simp
  from assms(2) have d: "0 \<le> days" by simp
  from vote_term_range [OF l] age_term_range [OF d] show ?thesis
    unfolding blend_exact_def by linarith
qed




section \<open>Properties of the store operations\<close>

lemmas kv_defs = kv_get_def kv_commit_def kv_getMany_def commit_def suspend_def others_def
  entry_of_def check_ok_def check_entry_def

lemma suspend_no_pending: "pending w = [] \<Longrightarrow> suspend w = w"
  by (simp add: suspend_def)

subsection \<open>Vote counts in binary64\<close>

lemma round_binary64_exact: "\<bar>m\<bar> \<le> 2 ^ 53 \<Longrightarrow> round_binary64 m = m"
  by (simp add: round_binary64_def Let_def nat_le_iff)

lemma increment_exact: "\<bar>m\<bar> < 2 ^ 53 \<Longrightarrow> round_binary64 (m + 1) = m + 1"
  by (rule round_binary64_exact) simp

lemma decrement_exact: "\<bar>m\<bar> < 2 ^ 53 \<Longrightarrow> round_binary64 (m - 1) = m - 1"
  by (rule round_binary64_exact) simp

text \<open>At \<open>2 ^ 53\<close> the exact sum lies halfway between two binary64 numbers and the tie
  goes back to \<open>2 ^ 53\<close>: \<^verbatim>\<open>score++\<close> leaves such a score as it is.\<close>

lemma binade_above: "binade 9007199254740993 = Suc 0"
  by (subst binade.simps, subst binade.simps) simp

lemma increment_at_limit: "round_binary64 (2 ^ 53 + 1) = 2 ^ 53"
  by (simp add: round_binary64_def Let_def binade_above)

subsection \<open>Votes\<close>

lemma createVote_body_missing:
  assumes "store (suspend w) [''items'', v_itemId initVote] = None"
  shows "createVote_body initVote w = (Some (Threw ItemDoesNotExist), suspend w)"
  using assms by (simp add: createVote_body_def kv_get_def entry_of_def Let_def)

lemma createVote_body_returned:
  assumes "createVote_body initVote w = (Some (Returned ()), w')"
  shows "\<exists>item vs.
           store (suspend w) [''items'', v_itemId initVote] = Some (VItem item, vs)
         \<and> store (suspend (suspend w)) [''votes_by_users'', v_userId initVote, v_itemId initVote] = None
         \<and> map_option snd (store (suspend (suspend w)) [''items'', v_itemId initVote]) = Some vs
         \<and> w' = (suspend (suspend w))
               \<lparr>store := (store (suspend (suspend w)))
                   ([''items'', v_itemId initVote] \<mapsto>
                      (VItem (item\<lparr>score := round_binary64 (score item + 1)\<rparr>), Suc (version (suspend (suspend w)))),
                    [''votes_by_users'', v_userId initVote, v_itemId initVote] \<mapsto>
                      (VUndefined, Suc (version (suspend (suspend w))))),
                 version := Suc (version (suspend (suspend w)))\<rparr>"
  using assms
  by (auto simp: createVote_body_def kv_get_def kv_commit_def commit_def entry_of_def
        check_ok_def check_entry_def Let_def
      split: option.splits val.splits if_splits prod.splits)

lemma createVote_iterations:
  "createVote n initVote w = Some (r, w') \<Longrightarrow>
     \<exists>k<n. createVote_body initVote (((\<lambda>u. snd (createVote_body initVote u)) ^^ k) w) = (Some r, w')"
proof (induction n arbitrary: w)
  case 0
  then show ?case by simp
next
  case (Suc n)
  obtain res w1 where body: "createVote_body initVote w = (res, w1)" by (cases "createVote_body initVote w")
  show ?case
  proof (cases res)
    case None
    with Suc.prems body have "createVote n initVote w1 = Some (r, w')" by simp
    from Suc.IH [OF this] obtain k where "k < n"
      and "createVote_body initVote (((\<lambda>u. snd (createVote_body initVote u)) ^^ k) w1) = (Some r, w')"
      by blast
    moreover have "((\<lambda>u. snd (createVote_body initVote u)) ^^ Suc k) w
        = ((\<lambda>u. snd (createVote_body initVote u)) ^^ k) w1"
      using body by (simp only: funpow_Suc_right o_apply snd_conv)
    ultimately have "Suc k < Suc n \<and>
      createVote_body initVote (((\<lambda>u. snd (createVote_body initVote u)) ^^ Suc k) w) = (Some r, w')"
      by simp
    then show ?thesis by blast
  next
    case (Some a)
    with Suc.prems body have "createVote_body initVote (((\<lambda>u. snd (createVote_body initVote u)) ^^ 0) w) = (Some r, w')"
      by simp
    then show ?thesis by blast
  qed
qed

lemma createVote_contended:
  "createVote (Suc (Suc 0)) vote_example contended_world = Some (Returned (), voted_world)"
  by (simp add: createVote_body_def kv_defs vote_example_def item_example_def
        contended_world_def voted_world_def Let_def numeral_3_eq_3 round_binary64_exact)

text \<open>
  Claim C1. If \<^verbatim>\<open>createVote\<close> returns normally, then in some iteration \<open>k\<close> it read the
  item (with a score and a versionstamp \<open>vs\<close>), and the commit that followed found the
  marker key \<^verbatim>\<open>votes_by_users/{userId}/{itemId}\<close> absent and the item still at \<open>vs\<close>,
  and wrote, under one new versionstamp, the marker and the item with the score that
  \<^verbatim>\<open>score++\<close> makes of the score that was read: that score plus one, whenever the
  score read is below \<open>2 ^ 53\<close> in magnitude. The world returned is the world of that
  commit. If the item is not there at the first read, the call throws and the store is
  as the other clients left it.
\<close>

theorem createVote_final_commit:
  "(createVote n initVote w = Some (Returned (), w') \<longrightarrow>
      (\<exists>k<n. \<exists>item vs.
          store (suspend (createVote_start initVote k w)) [''items'', v_itemId initVote]
            = Some (VItem item, vs)
        \<and> store (suspend (suspend (createVote_start initVote k w)))
            [''votes_by_users'', v_userId initVote, v_itemId initVote] = None
        \<and> map_option snd (store (suspend (suspend (createVote_start initVote k w)))
            [''items'', v_itemId initVote]) = Some vs
        \<and> w' = (suspend (suspend (createVote_start initVote k w)))
               \<lparr>store := (store (suspend (suspend (createVote_start initVote k w))))
                   ([''items'', v_itemId initVote] \<mapsto>
                      (VItem (item\<lparr>score := round_binary64 (score item + 1)\<rparr>),
                       Suc (version (suspend (suspend (createVote_start initVote k w))))),
                    [''votes_by_users'', v_userId initVote, v_itemId initVote] \<mapsto>
                      (VUndefined, Suc (version (suspend (suspend (createVote_start initVote k w)))))),
                 version := Suc (version (suspend (suspend (createVote_start initVote k w))))\<rparr>
        \<and> (\<bar>score item\<bar> < 2 ^ 53 \<longrightarrow> round_binary64 (score item + 1) = score item + 1)))
   \<and> (store (suspend w) [''items'', v_itemId initVote] = None \<longrightarrow>
        createVote (Suc n) initVote w = Some (Threw ItemDoesNotExist, suspend w))"
proof (intro conjI impI)
  assume "createVote n initVote w = Some (Returned (), w')"
  from createVote_iterations [OF this] obtain k where "k < n"
    and "createVote_body initVote (createVote_start initVote k w) = (Some (Returned ()), w')"
    unfolding createVote_start_def by blast
  from this(1) createVote_body_returned [OF this(2)] increment_exact
  show "\<exists>k<n. \<exists>item vs.
          store (suspend (createVote_start initVote k w)) [''items'', v_itemId initVote]
            = Some (VItem item, vs)
        \<and> store (suspend (suspend (createVote_start initVote k w)))
            [''votes_by_users'', v_userId initVote, v_itemId initVote] = None
        \<and> map_option snd (store (suspend (suspend (createVote_start initVote k w)))
            [''items'', v_itemId initVote]) = Some vs
        \<and> w' = (suspend (suspend (createVote_start initVote k w)))
               \<lparr>store := (store (suspend (suspend (createVote_start initVote k w))))
                   ([''items'', v_itemId initVote] \<mapsto>
                      (VItem (item\<lparr>score := round_binary64 (score item + 1)\<rparr>),
                       Suc (version (suspend (suspend (createVote_start initVote k w))))),
                    [''votes_by_users'', v_userId initVote, v_itemId initVote] \<mapsto>
                      (VUndefined, Suc (version (suspend (suspend (createVote_start initVote k w)))))),
                 version := Suc (version (suspend (suspend (createVote_start initVote k w))))\<rparr>
        \<and> (\<bar>score item\<bar> < 2 ^ 53 \<longrightarrow> round_binary64 (score item + 1) = score item + 1)"
    by blast
next
  assume "store (suspend w) [''items'', v_itemId initVote] = None"
  from createVote_body_missing [OF this]
  show "createVote (Suc n) initVote w = Some (Threw ItemDoesNotExist, suspend w)" by simp
qed

theorem createVote_final_commit_witness:
  "createVote (Suc (Suc 0)) vote_example contended_world = Some (Returned (), voted_world)
   \<and> (\<exists>k<Suc (Suc 0). \<exists>item vs.
          store (suspend (createVote_start vote_example k contended_world))
            [''items'', v_itemId vote_example] = Some (VItem item, vs)
        \<and> store (suspend (suspend (createVote_start vote_example k contended_world)))
            [''votes_by_users'', v_userId vote_example, v_itemId vote_example] = None
        \<and> map_option snd (store (suspend (suspend (createVote_start vote_example k contended_world)))
            [''items'', v_itemId vote_example]) = Some vs
        \<and> voted_world = (suspend (suspend (createVote_start vote_example k contended_world)))
               \<lparr>store := (store (suspend (suspend (createVote_start vote_example k contended_world))))
                   ([''items'', v_itemId vote_example] \<mapsto>
                      (VItem (item\<lparr>score := round_binary64 (score item + 1)\<rparr>),
                       Suc (version (suspend (suspend (createVote_start vote_example k contended_world))))),
                    [''votes_by_users'', v_userId vote_example, v_itemId vote_example] \<mapsto>
                      (VUndefined, Suc (version (suspend (suspend (createVote_start vote_example k contended_world)))))),
                 version := Suc (version (suspend (suspend (createVote_start vote_example k contended_world))))\<rparr>)
   \<and> store (suspend (createVote_start vote_example (Suc 0) contended_world)) [''items'', ''i1'']
       = Some (VItem (item_example\<lparr>score := 7\<rparr>), 2)
   \<and> \<bar>score (item_example\<lparr>score := 7\<rparr>)\<bar> < 2 ^ 53
   \<and> store voted_world [''items'', ''i1'']
       = Some (VItem (item_example\<lparr>score := score (item_example\<lparr>score := 7\<rparr>) + 1\<rparr>), 3)
   \<and> store (suspend empty_world) [''items'', v_itemId vote_example] = None
   \<and> createVote (Suc 0) vote_example empty_world = Some (Threw ItemDoesNotExist, suspend empty_world)"
proof -
  have missing: "store (suspend empty_world) [''items'', v_itemId vote_example] = None"
    by (simp add: empty_world_def suspend_def)
  from createVote_final_commit [of "Suc (Suc 0)" vote_example contended_world voted_world]
    createVote_contended
  have first: "\<exists>k<Suc (Suc 0). \<exists>item vs.
          store (suspend (createVote_start vote_example k contended_world))
            [''items'', v_itemId vote_example] = Some (VItem item, vs)
        \<and> store (suspend (suspend (createVote_start vote_example k contended_world)))
            [''votes_by_users'', v_userId vote_example, v_itemId vote_example] = None
        \<and> map_option snd (store (suspend (suspend (createVote_start vote_example k contended_world)))
            [''items'', v_itemId vote_example]) = Some vs
        \<and> voted_world = (suspend (suspend (createVote_start vote_example k contended_world)))
               \<lparr>store := (store (suspend (suspend (createVote_start vote_example k contended_world))))
                   ([''items'', v_itemId vote_example] \<mapsto>
                      (VItem (item\<lparr>score := round_binary64 (score item + 1)\<rparr>),
                       Suc (version (suspend (suspend (createVote_start vote_example k contended_world))))),
                    [''votes_by_users'', v_userId vote_example, v_itemId vote_example] \<mapsto>
                      (VUndefined, Suc (version (suspend (suspend (createVote_start vote_example k contended_world)))))),
                 version := Suc (version (suspend (suspend (createVote_start vote_example k contended_world))))\<rparr>"
    by blast
  have read: "store (suspend (createVote_start vote_example (Suc 0) contended_world)) [''items'', ''i1'']
       = Some (VItem (item_example\<lparr>score := 7\<rparr>), 2)"
    by (simp add: createVote_start_def createVote_body_def kv_defs vote_example_def
          item_example_def contended_world_def Let_def round_binary64_exact)
  have small: "\<bar>score (item_example\<lparr>score := 7\<rparr>)\<bar> < 2 ^ 53" by simp
  have written: "store voted_world [''items'', ''i1'']
       = Some (VItem (item_example\<lparr>score := score (item_example\<lparr>score := 7\<rparr>) + 1\<rparr>), 3)"
    by (simp add: voted_world_def)
  from createVote_final_commit [of 0 vote_example empty_world] missing
  have second: "createVote (Suc 0) vote_example empty_world = Some (Threw ItemDoesNotExist, suspend empty_world)"
    by blast
  from createVote_contended first read small written missing second show ?thesis by blast
qed

text \<open>At a stored score of \<open>2 ^ 53\<close> the call returns as well, the marker is written and
  the score stays where it was.\<close>

lemma createVote_at_limit:
  "createVote (Suc 0) vote_example limit_world
     = Some (Returned (),
         \<lparr>store = [[''items'', ''i1''] \<mapsto> (VItem (item_example\<lparr>score := 2 ^ 53\<rparr>), 2),
                   [''votes_by_users'', ''u1'', ''i1''] \<mapsto> (VUndefined, 2)],
          version = 2, pending = [], console = []\<rparr>)"
  using increment_at_limit
  by (simp add: createVote_body_def kv_defs vote_example_def item_example_def limit_world_def Let_def
        numeral_2_eq_2)

lemma deleteVote_body_no_marker:
  assumes "store (suspend w) [''items'', v_itemId initVote] = Some (VItem item, vs)"
    and "store (suspend (suspend w)) [''votes_by_users'', v_userId initVote, v_itemId initVote] = None"
  shows "deleteVote_body initVote w = (Some (Returned ()), suspend (suspend w))"
  using assms by (simp add: deleteVote_body_def kv_get_def entry_of_def Let_def)

lemma deleteVote_body_missing:
  assumes "store (suspend w) [''items'', v_itemId initVote] = None"
  shows "deleteVote_body initVote w = (Some (Threw ItemDoesNotExist), suspend (suspend w))"
  using assms by (simp add: deleteVote_body_def kv_get_def entry_of_def Let_def)

text \<open>
  Claim C9. \<^verbatim>\<open>deleteVote\<close> reads the item and then the marker. With the item stored and
  the marker absent it returns without a commit: the world is the one the two reads
  saw, and when no other client commits it is the starting world, score included. When
  the item is missing it throws, and it tests that before it looks at the marker read.
\<close>

theorem deleteVote_without_vote:
  "(store (suspend w) [''items'', v_itemId initVote] = Some (VItem item, vs)
      \<and> store (suspend (suspend w)) [''votes_by_users'', v_userId initVote, v_itemId initVote] = None
    \<longrightarrow> deleteVote (Suc n) initVote w = Some (Returned (), suspend (suspend w)))
   \<and> (pending w = []
      \<and> store w [''items'', v_itemId initVote] = Some (VItem item, vs)
      \<and> store w [''votes_by_users'', v_userId initVote, v_itemId initVote] = None
    \<longrightarrow> deleteVote (Suc n) initVote w = Some (Returned (), w))
   \<and> (store (suspend w) [''items'', v_itemId initVote] = None
    \<longrightarrow> deleteVote (Suc n) initVote w = Some (Threw ItemDoesNotExist, suspend (suspend w)))"
proof (intro conjI impI)
  assume "store (suspend w) [''items'', v_itemId initVote] = Some (VItem item, vs)
      \<and> store (suspend (suspend w)) [''votes_by_users'', v_userId initVote, v_itemId initVote] = None"
  then show "deleteVote (Suc n) initVote w = Some (Returned (), suspend (suspend w))"
    by (simp add: deleteVote_body_no_marker)
next
  assume a: "pending w = []
      \<and> store w [''items'', v_itemId initVote] = Some (VItem item, vs)
      \<and> store w [''votes_by_users'', v_userId initVote, v_itemId initVote] = None"
  then have "suspend w = w" by (simp add: suspend_no_pending)
  with a show "deleteVote (Suc n) initVote w = Some (Returned (), w)"
    using deleteVote_body_no_marker [of w initVote item vs] by simp
next
  assume "store (suspend w) [''items'', v_itemId initVote] = None"
  then show "deleteVote (Suc n) initVote w = Some (Threw ItemDoesNotExist, suspend (suspend w))"
    by (simp add: deleteVote_body_missing)
qed

theorem deleteVote_without_vote_witness:
  "pending quiet_world = []
   \<and> store (suspend quiet_world) [''items'', v_itemId vote_example] = Some (VItem item_example, 1)
   \<and> store (suspend (suspend quiet_world))
        [''votes_by_users'', v_userId vote_example, v_itemId vote_example] = None
   \<and> store quiet_world [''items'', v_itemId vote_example] = Some (VItem item_example, 1)
   \<and> store quiet_world [''votes_by_users'', v_userId vote_example, v_itemId vote_example] = None
   \<and> deleteVote (Suc 0) vote_example quiet_world = Some (Returned (), suspend (suspend quiet_world))
   \<and> deleteVote (Suc 0) vote_example quiet_world = Some (Returned (), quiet_world)
   \<and> store (suspend empty_world) [''items'', v_itemId vote_example] = None
   \<and> deleteVote (Suc 0) vote_example empty_world
       = Some (Threw ItemDoesNotExist, suspend (suspend empty_world))"
proof -
  have q: "pending quiet_world = []" "suspend quiet_world = quiet_world"
    by (simp_all add: quiet_world_def suspend_def)
  have i: "store quiet_world [''items'', v_itemId vote_example] = Some (VItem item_example, 1)"
    by (simp add: quiet_world_def vote_example_def)
  have m: "store quiet_world [''votes_by_users'', v_userId vote_example, v_itemId vote_example] = None"
    by (simp add: quiet_world_def vote_example_def)
  have e: "store (suspend empty_world) [''items'', v_itemId vote_example] = None"
    by (simp add: empty_world_def suspend_def)
  from deleteVote_without_vote [of quiet_world vote_example item_example 1 0] q i m
  have "deleteVote (Suc 0) vote_example quiet_world = Some (Returned (), quiet_world)" by simp
  moreover from deleteVote_without_vote [of empty_world vote_example item_example 1 0] e
  have "deleteVote (Suc 0) vote_example empty_world
       = Some (Threw ItemDoesNotExist, suspend (suspend empty_world))" by blast
  ultimately show ?thesis using q i m e by simp
qed

text \<open>A second \<^verbatim>\<open>createVote\<close> for a pair whose marker is stored fails its absence check
  in every iteration: with no other client it never returns, whatever the bound.\<close>

lemma createVote_body_voted:
  "createVote_body vote_example voted_world = (None, voted_world)"
  by (simp add: createVote_body_def kv_defs vote_example_def item_example_def voted_world_def Let_def)

lemma createVote_twice_never_returns: "createVote n vote_example voted_world = None"
  by (induction n) (simp_all add: createVote_body_voted)

text \<open>A marker written by \<^verbatim>\<open>createVote\<close> holds \<^verbatim>\<open>undefined\<close>, which is not \<^verbatim>\<open>null\<close>:
  \<^verbatim>\<open>deleteVote\<close> sees it and takes the vote back.\<close>

lemma deleteVote_after_createVote:
  "deleteVote (Suc 0) vote_example voted_world
     = Some (Returned (),
         \<lparr>store = [[''items'', ''i1''] \<mapsto> (VItem (item_example\<lparr>score := 7\<rparr>), 4)],
          version = 4, pending = [], console = []\<rparr>)"
  by (simp add: deleteVote_body_def kv_defs vote_example_def item_example_def voted_world_def
        Let_def fun_upd_twist round_binary64_exact)

subsection \<open>Comments\<close>

lemma createComment_store:
  "snd (createComment uuid now initComment w) =
     (if store (suspend w) [''comments_by_users'', c_userId initComment, uuid] = None
        \<and> store (suspend w) [''comments_by_item'', c_itemId initComment, uuid] = None
      then (suspend w)\<lparr>store := (store (suspend w))
              ([''comments_by_users'', c_userId initComment, uuid] \<mapsto>
                 (VComment \<lparr>c_userId = c_userId initComment, c_itemId = c_itemId initComment,
                    c_text = c_text initComment, comment_id = uuid, c_createdAt = now\<rparr>,
                  Suc (version (suspend w))),
               [''comments_by_item'', c_itemId initComment, uuid] \<mapsto>
                 (VComment \<lparr>c_userId = c_userId initComment, c_itemId = c_itemId initComment,
                    c_text = c_text initComment, comment_id = uuid, c_createdAt = now\<rparr>,
                  Suc (version (suspend w)))),
            version := Suc (version (suspend w))\<rparr>
      else suspend w)"
  by (simp add: createComment_def kv_commit_def commit_def check_ok_def Let_def)

lemma createComment_result:
  "fst (createComment uuid now initComment w) =
     Returned \<lparr>c_userId = c_userId initComment, c_itemId = c_itemId initComment,
                c_text = c_text initComment, comment_id = uuid, c_createdAt = now\<rparr>"
  by (simp add: createComment_def Let_def split: prod.splits)

text \<open>
  Claim C2 says that \<^verbatim>\<open>createComment\<close>, when its transaction fails, returns no comment
  to the caller. Both copies are written in one transaction guarded by the two absence
  checks (\<open>createComment_store\<close>) and nothing is retried, but \<^verbatim>\<open>return comment\<close> does
  not look at \<^verbatim>\<open>res.ok\<close>: where the drawn identifier is taken, the store stays as it
  was and the caller still receives the comment that was not stored.
\<close>

theorem createComment_returns_unstored_comment:
  "createComment ''c1'' 20 comment_init_example collision_world
     = (Returned \<lparr>c_userId = ''u1'', c_itemId = ''i1'', c_text = ''hello'',
                  comment_id = ''c1'', c_createdAt = 20\<rparr>,
        collision_world)"
  by (simp add: createComment_def comment_init_example_def collision_world_def kv_defs Let_def)

subsection \<open>Items\<close>

lemma createItem_status_logged:
  assumes "store (suspend w) [''items'', uuid] = None"
    and "fetch \<lparr>ev_userId = userId initItem, ev_id = uuid, ev_createdAt = now div 1000,
                 ev_score = 0, ev_title = title initItem, ev_url = url initItem\<rparr> = Response status body"
    and "\<not> (200 \<le> status \<and> status \<le> 299)"
  shows "fst (createItem fetch uuid now initItem w)
         = Returned (Some \<lparr>userId = userId initItem, title = title initItem, url = url initItem,
                           item_id = uuid, createdAt = now, score = 0\<rparr>)"
  using assms
  by (simp add: createItem_def kv_commit_def commit_def check_ok_def Let_def)

text \<open>
  Claim C4 says that no failure of the analytics request reaches the caller of
  \<^verbatim>\<open>createItem\<close>. A response with a status outside 200 to 299 is logged and the item
  is returned (\<open>createItem_status_logged\<close>). A request that fails in transport rejects
  the promise of \<^verbatim>\<open>fetch\<close>, which no \<^verbatim>\<open>try\<close> encloses: the item has been committed
  and the call throws.
\<close>

theorem createItem_fetch_rejected:
  "createItem fetch_rejects ''i9'' 1700000000123 init_item_example empty_world
     = (Threw FetchFailed,
        \<lparr>store = [[''items'', ''i9''] \<mapsto>
                    (VItem \<lparr>userId = ''u0'', title = ''t'', url = ''x'', item_id = ''i9'',
                            createdAt = 1700000000123, score = 0\<rparr>, 1)],
         version = 1, pending = [], console = []\<rparr>)"
  by (simp add: createItem_def fetch_rejects_def init_item_example_def empty_world_def kv_defs Let_def)

subsection \<open>Users\<close>

lemmas user_keys = usersKey_def usersByLoginKey_def usersBySessionKey_def usersByStripeCustomerKey_def

lemma createUser_eq:
  "createUser user w =
     (if store (suspend w) (usersKey user) = None
       \<and> store (suspend w) (usersByLoginKey user) = None
       \<and> store (suspend w) (usersBySessionKey (sessionId user)) = None
       \<and> store (suspend w) (usersByStripeCustomerKey user) = None
      then (Returned (subscribed user (Some False)),
            (suspend w)\<lparr>store := (store (suspend w))
                (usersKey user \<mapsto> (VUser (subscribed user (Some False)), Suc (version (suspend w))),
                 usersByLoginKey user \<mapsto> (VUser (subscribed user (Some False)), Suc (version (suspend w))),
                 usersBySessionKey (sessionId user) \<mapsto> (VUser (subscribed user (Some False)), Suc (version (suspend w))),
                 usersByStripeCustomerKey user \<mapsto> (VUser (subscribed user (Some False)), Suc (version (suspend w)))),
              version := Suc (version (suspend w))\<rparr>)
      else (Threw CommitFailed, suspend w))"
  by (simp add: createUser_def kv_commit_def commit_def check_ok_def subscribed_def Let_def)

lemma four_copies_written:
  "four_copies (s(usersKey u \<mapsto> (VUser u', v), usersByLoginKey u \<mapsto> (VUser u', v),
       usersBySessionKey sid \<mapsto> (VUser u', v), usersByStripeCustomerKey u \<mapsto> (VUser u', v))) u'"
  if "user_id u' = user_id u" "login u' = login u" "stripeCustomerId u' = stripeCustomerId u"
     "sessionId u' = sid"
  using that by (simp add: four_copies_def user_keys)

lemma setUserSubscription_cases:
  assumes "setUserSubscription user b w = (r, w')"
  shows "(r = Returned () \<and> four_copies (store w') (user\<lparr>isSubscribed := Some b\<rparr>))
       \<or> ((\<exists>e. r = Threw e) \<and> (w' = suspend w \<or> w' = suspend (suspend w)))"
  using assms four_copies_written [of "user\<lparr>isSubscribed := Some b\<rparr>" user "sessionId user"]
  by (auto simp: setUserSubscription_def kv_getMany_def kv_commit_def commit_def Let_def
      split: option.splits if_splits)

lemma setUserSession_cases:
  assumes "setUserSession user sid w = (r, w')"
  shows "(r = Returned () \<and> four_copies (store w') (user\<lparr>sessionId := sid\<rparr>))
       \<or> ((\<exists>e. r = Threw e) \<and> (w' = suspend w \<or> w' = suspend (suspend w)))"
  using assms four_copies_written [of "user\<lparr>sessionId := sid\<rparr>" user sid]
  by (auto simp: setUserSession_def kv_getMany_def kv_commit_def commit_def Let_def
      split: option.splits if_splits)

lemma createUser_cases:
  assumes "createUser user w = (r, w')"
  shows "(r = Returned (subscribed user (Some False))
           \<and> (\<forall>k\<in>user_keys_of user (sessionId user). store (suspend w) k = None)
           \<and> four_copies (store w') (subscribed user (Some False))
           \<and> (\<forall>k. k \<notin> user_keys_of user (sessionId user) \<longrightarrow> store w' k = store (suspend w) k))
       \<or> (r = Threw CommitFailed \<and> w' = suspend w
           \<and> (\<exists>k\<in>user_keys_of user (sessionId user). store (suspend w) k \<noteq> None))"
proof (cases "\<forall>k\<in>user_keys_of user (sessionId user). store (suspend w) k = None")
  case True
  with assms have r: "r = Returned (subscribed user (Some False))"
    and w': "store w' = (store (suspend w))
                (usersKey user \<mapsto> (VUser (subscribed user (Some False)), Suc (version (suspend w))),
                 usersByLoginKey user \<mapsto> (VUser (subscribed user (Some False)), Suc (version (suspend w))),
                 usersBySessionKey (sessionId user) \<mapsto> (VUser (subscribed user (Some False)), Suc (version (suspend w))),
                 usersByStripeCustomerKey user \<mapsto> (VUser (subscribed user (Some False)), Suc (version (suspend w))))"
    by (auto simp: createUser_eq user_keys_of_def)
  have "four_copies (store w') (subscribed user (Some False))"
    unfolding w' by (rule four_copies_written) (simp_all add: subscribed_def)
  moreover have "\<forall>k. k \<notin> user_keys_of user (sessionId user) \<longrightarrow> store w' k = store (suspend w) k"
    unfolding w' by (simp add: user_keys_of_def)
  ultimately show ?thesis using True r by blast
next
  case False
  with assms have "r = Threw CommitFailed \<and> w' = suspend w"
    by (auto simp: createUser_eq user_keys_of_def split: if_splits)
  with False show ?thesis by blast
qed

lemma setUserSubscription_frame:
  assumes "setUserSubscription u b w = (Returned (), w')"
  shows "\<forall>k. k \<notin> user_keys_of u (sessionId u) \<longrightarrow> store w' k = store (suspend (suspend w)) k"
  using assms
  by (auto simp: setUserSubscription_def kv_getMany_def kv_commit_def commit_def Let_def user_keys_of_def
      split: option.splits if_splits)

lemma setUserSession_frame:
  assumes "setUserSession u sid w = (Returned (), w')"
  shows "\<forall>k. k \<notin> user_keys_of u sid \<longrightarrow> store w' k = store (suspend (suspend w)) k"
  using assms
  by (auto simp: setUserSession_def kv_getMany_def kv_commit_def commit_def Let_def user_keys_of_def
      split: option.splits if_splits)

lemma setUserSubscription_quiet:
  assumes "pending w = []" "four_copies (store w) u"
  shows "fst (setUserSubscription u b w) = Returned ()"
  using assms
  by (auto simp: setUserSubscription_def kv_getMany_def kv_commit_def commit_def Let_def
      suspend_def four_copies_def isEntry_def entry_of_def check_ok_def check_entry_def
      split: option.splits)

lemma setUserSession_quiet:
  assumes "pending w = []" "four_copies (store w) u" "store w (usersBySessionKey sid) = None"
  shows "fst (setUserSession u sid w) = Returned ()"
  using assms
  by (auto simp: setUserSession_def kv_getMany_def kv_commit_def commit_def Let_def
      suspend_def four_copies_def isEntry_def entry_of_def check_ok_def check_entry_def
      split: option.splits)

lemma registered_world_eq:
  "createUser init_user_example empty_world
     = (Returned (subscribed init_user_example (Some False)), registered_world)"
  by (simp add: registered_world_def createUser_eq empty_world_def suspend_def)

lemma registered_world_pending: "pending registered_world = []"
  by (simp add: registered_world_def createUser_eq empty_world_def suspend_def)

lemma subscribed_set: "(subscribed user b)\<lparr>isSubscribed := c\<rparr> = subscribed user c"
  by (simp add: subscribed_def)

lemma setUserSubscription_pending:
  "pending w = [] \<Longrightarrow> pending (snd (setUserSubscription u b w)) = []"
  by (auto simp: setUserSubscription_def kv_getMany_def kv_commit_def commit_def Let_def suspend_def
      split: option.splits if_splits)

lemma setUserSession_pending:
  "pending w = [] \<Longrightarrow> pending (snd (setUserSession u sid w)) = []"
  by (auto simp: setUserSession_def kv_getMany_def kv_commit_def commit_def Let_def suspend_def
      split: option.splits if_splits)

lemma four_copies_lookups:
  assumes "pending w = []" "four_copies (store w) u"
  shows "getUserById (user_id u) w = (VUser u, w)
       \<and> getUserByLogin (login u) w = (VUser u, w)
       \<and> getUserBySessionId (sessionId u) w = (VUser u, w)
       \<and> getUserByStripeCustomerId (stripeCustomerId u) w = (VUser u, w)"
  using assms
  by (auto simp: four_copies_def user_keys getUserById_def getUserByLogin_def
        getUserBySessionId_def getUserByStripeCustomerId_def kv_get_def suspend_def entry_of_def
      split: option.splits)

lemma user_calls_four_copies:
  "pending w = [] \<Longrightarrow> four_copies (store w) u \<Longrightarrow>
     four_copies (store (snd (user_calls cs u w))) (fst (user_calls cs u w))
   \<and> pending (snd (user_calls cs u w)) = []"
proof (induction cs arbitrary: u w)
  case Nil
  then show ?case by simp
next
  case (Cons c cs)
  from Cons.prems(1) have s: "suspend w = w" by (rule suspend_no_pending)
  show ?case
  proof (cases c)
    case (SetSubscription b)
    obtain r w' where call: "setUserSubscription u b w = (r, w')"
      by (cases "setUserSubscription u b w")
    from setUserSubscription_pending [OF Cons.prems(1), of u b] call
    have p: "pending w' = []" by simp
    from setUserSubscription_cases [OF call] show ?thesis
    proof
      assume "r = Returned () \<and> four_copies (store w') (u\<lparr>isSubscribed := Some b\<rparr>)"
      with Cons.IH [OF p, of "u\<lparr>isSubscribed := Some b\<rparr>"] call SetSubscription
      show ?thesis by simp
    next
      assume "(\<exists>e. r = Threw e) \<and> (w' = suspend w \<or> w' = suspend (suspend w))"
      with s have "w' = w" and "\<exists>e. r = Threw e" by auto
      with Cons.IH [OF Cons.prems] call SetSubscription show ?thesis by auto
    qed
  next
    case (SetSession sid)
    obtain r w' where call: "setUserSession u sid w = (r, w')"
      by (cases "setUserSession u sid w")
    from setUserSession_pending [OF Cons.prems(1), of u sid] call
    have p: "pending w' = []" by simp
    from setUserSession_cases [OF call] show ?thesis
    proof
      assume "r = Returned () \<and> four_copies (store w') (u\<lparr>sessionId := sid\<rparr>)"
      with Cons.IH [OF p, of "u\<lparr>sessionId := sid\<rparr>"] call SetSession
      show ?thesis by simp
    next
      assume "(\<exists>e. r = Threw e) \<and> (w' = suspend w \<or> w' = suspend (suspend w))"
      with s have "w' = w" and "\<exists>e. r = Threw e" by auto
      with Cons.IH [OF Cons.prems] call SetSession show ?thesis by auto
    qed
  qed
qed

text \<open>
  Claim C3. \<^verbatim>\<open>createUser\<close> either finds all four keys absent and writes the same object,
  the new user with \<^verbatim>\<open>isSubscribed\<close> false, under all four and nowhere else, or throws
  with the store untouched. \<^verbatim>\<open>setUserSubscription\<close> and \<^verbatim>\<open>setUserSession\<close>, when they
  return, have written one object under the four keys of the updated record and nothing
  else; when they throw they have written nothing. Called for a user whose four copies
  agree, with no other client in between (and, for \<^verbatim>\<open>setUserSession\<close>, a session key
  that is free), they do return. So after any sequence of such calls made with the
  user's record the four copies agree, and the four lookups return that one object. The
  entry under the previous session key is not touched by \<^verbatim>\<open>setUserSession\<close>.
\<close>

theorem users_four_copies:
  "(createUser user w = (r, w') \<longrightarrow>
      (r = Returned (subscribed user (Some False))
        \<and> (\<forall>k\<in>user_keys_of user (sessionId user). store (suspend w) k = None)
        \<and> four_copies (store w') (subscribed user (Some False))
        \<and> (\<forall>k. k \<notin> user_keys_of user (sessionId user) \<longrightarrow> store w' k = store (suspend w) k))
      \<or> (r = Threw CommitFailed \<and> w' = suspend w
        \<and> (\<exists>k\<in>user_keys_of user (sessionId user). store (suspend w) k \<noteq> None)))
   \<and> (setUserSubscription u b w = (r2, w2) \<longrightarrow>
      (r2 = Returned () \<and> four_copies (store w2) (u\<lparr>isSubscribed := Some b\<rparr>)
        \<and> (\<forall>k. k \<notin> user_keys_of u (sessionId u) \<longrightarrow> store w2 k = store (suspend (suspend w)) k))
      \<or> ((\<exists>e. r2 = Threw e) \<and> (w2 = suspend w \<or> w2 = suspend (suspend w))))
   \<and> (setUserSession u sid w = (r3, w3) \<longrightarrow>
      (r3 = Returned () \<and> four_copies (store w3) (u\<lparr>sessionId := sid\<rparr>)
        \<and> (\<forall>k. k \<notin> user_keys_of u sid \<longrightarrow> store w3 k = store (suspend (suspend w)) k))
      \<or> ((\<exists>e. r3 = Threw e) \<and> (w3 = suspend w \<or> w3 = suspend (suspend w))))
   \<and> (pending w = [] \<and> four_copies (store w) u \<longrightarrow>
        fst (setUserSubscription u b w) = Returned ())
   \<and> (pending w = [] \<and> four_copies (store w) u \<and> store w (usersBySessionKey sid) = None \<longrightarrow>
        fst (setUserSession u sid w) = Returned ())
   \<and> (pending w = [] \<and> four_copies (store w) u \<longrightarrow>
        four_copies (store (snd (user_calls cs u w))) (fst (user_calls cs u w)))
   \<and> (pending w = [] \<and> four_copies (store w) u \<longrightarrow>
        getUserById (user_id u) w = (VUser u, w)
      \<and> getUserByLogin (login u) w = (VUser u, w)
      \<and> getUserBySessionId (sessionId u) w = (VUser u, w)
      \<and> getUserByStripeCustomerId (stripeCustomerId u) w = (VUser u, w))"
proof (intro conjI impI)
  assume "createUser user w = (r, w')"
  then show "(r = Returned (subscribed user (Some False))
        \<and> (\<forall>k\<in>user_keys_of user (sessionId user). store (suspend w) k = None)
        \<and> four_copies (store w') (subscribed user (Some False))
        \<and> (\<forall>k. k \<notin> user_keys_of user (sessionId user) \<longrightarrow> store w' k = store (suspend w) k))
      \<or> (r = Threw CommitFailed \<and> w' = suspend w
        \<and> (\<exists>k\<in>user_keys_of user (sessionId user). store (suspend w) k \<noteq> None))"
    by (rule createUser_cases)
next
  assume a: "setUserSubscription u b w = (r2, w2)"
  from setUserSubscription_cases [OF a] setUserSubscription_frame [of u b w w2] a
  show "(r2 = Returned () \<and> four_copies (store w2) (u\<lparr>isSubscribed := Some b\<rparr>)
        \<and> (\<forall>k. k \<notin> user_keys_of u (sessionId u) \<longrightarrow> store w2 k = store (suspend (suspend w)) k))
      \<or> ((\<exists>e. r2 = Threw e) \<and> (w2 = suspend w \<or> w2 = suspend (suspend w)))"
    by blast
next
  assume a: "setUserSession u sid w = (r3, w3)"
  from setUserSession_cases [OF a] setUserSession_frame [of u sid w w3] a
  show "(r3 = Returned () \<and> four_copies (store w3) (u\<lparr>sessionId := sid\<rparr>)
        \<and> (\<forall>k. k \<notin> user_keys_of u sid \<longrightarrow> store w3 k = store (suspend (suspend w)) k))
      \<or> ((\<exists>e. r3 = Threw e) \<and> (w3 = suspend w \<or> w3 = suspend (suspend w)))"
    by blast
next
  assume "pending w = [] \<and> four_copies (store w) u"
  then show "fst (setUserSubscription u b w) = Returned ()"
    by (simp add: setUserSubscription_quiet)
next
  assume "pending w = [] \<and> four_copies (store w) u \<and> store w (usersBySessionKey sid) = None"
  then show "fst (setUserSession u sid w) = Returned ()"
    by (simp add: setUserSession_quiet)
next
  assume "pending w = [] \<and> four_copies (store w) u"
  then show "four_copies (store (snd (user_calls cs u w))) (fst (user_calls cs u w))"
    by (simp add: user_calls_four_copies)
next
  assume a: "pending w = [] \<and> four_copies (store w) u"
  with four_copies_lookups [of w u]
  show "getUserById (user_id u) w = (VUser u, w)"
    and "getUserByLogin (login u) w = (VUser u, w)"
    and "getUserBySessionId (sessionId u) w = (VUser u, w)"
    and "getUserByStripeCustomerId (stripeCustomerId u) w = (VUser u, w)"
    by simp_all
qed

theorem users_four_copies_witness:
  "createUser init_user_example empty_world
     = (Returned (subscribed init_user_example (Some False)), registered_world)
   \<and> four_copies (store registered_world) (subscribed init_user_example (Some False))
   \<and> pending registered_world = []
   \<and> setUserSubscription (subscribed init_user_example (Some False)) True registered_world
     = (Returned (), subscribed_world)
   \<and> four_copies (store subscribed_world) (subscribed init_user_example (Some True))
   \<and> pending subscribed_world = []
   \<and> store subscribed_world (usersBySessionKey ''s2'') = None
   \<and> setUserSession (subscribed init_user_example (Some True)) ''s2'' subscribed_world
     = (Returned (), moved_world)
   \<and> four_copies (store moved_world) ((subscribed init_user_example (Some True))\<lparr>sessionId := ''s2''\<rparr>)
   \<and> four_copies
        (store (snd (user_calls [SetSubscription True, SetSession ''s2'']
                       (subscribed init_user_example (Some False)) registered_world)))
        (fst (user_calls [SetSubscription True, SetSession ''s2'']
                (subscribed init_user_example (Some False)) registered_world))
   \<and> getUserBySessionId ''s1'' registered_world
     = (VUser (subscribed init_user_example (Some False)), registered_world)"
proof -
  let ?u0 = "subscribed init_user_example (Some False)"
  let ?u1 = "subscribed init_user_example (Some True)"
  note c1 = registered_world_eq
  have e: "suspend empty_world = empty_world" "suspend registered_world = registered_world"
    by (simp_all add: suspend_no_pending empty_world_def registered_world_pending)
  have fresh: "usersBySessionKey ''s2'' \<notin> user_keys_of init_user_example (sessionId init_user_example)"
    "usersBySessionKey ''s2'' \<notin> user_keys_of ?u0 (sessionId ?u0)"
    by (simp_all add: user_keys_of_def user_keys init_user_example_def subscribed_def)
  from users_four_copies [where user = init_user_example and w = empty_world
      and r = "Returned ?u0" and w' = registered_world] c1
  have f1: "four_copies (store registered_world) ?u0"
    and n1: "store registered_world (usersBySessionKey ''s2'') = store (suspend empty_world) (usersBySessionKey ''s2'')"
    using fresh(1) by auto
  note p1 = registered_world_pending
  from users_four_copies [where w = registered_world and u = ?u0 and b = True] p1 f1
  have "fst (setUserSubscription ?u0 True registered_world) = Returned ()" by blast
  then have c2: "setUserSubscription ?u0 True registered_world = (Returned (), subscribed_world)"
    by (simp add: subscribed_world_def prod_eq_iff)
  from users_four_copies [where w = registered_world and u = ?u0 and b = True
      and ?r2.0 = "Returned ()" and ?w2.0 = subscribed_world] c2
  have f2: "four_copies (store subscribed_world) ?u1"
    and n2: "store subscribed_world (usersBySessionKey ''s2'')
             = store (suspend (suspend registered_world)) (usersBySessionKey ''s2'')"
    using fresh(2) by (auto simp: subscribed_set)
  from setUserSubscription_pending [OF p1, of ?u0 True]
  have p2: "pending subscribed_world = []" by (simp add: subscribed_world_def)
  from n1 n2 e have s2: "store subscribed_world (usersBySessionKey ''s2'') = None"
    by (simp add: empty_world_def)
  from users_four_copies [where w = subscribed_world and u = ?u1 and sid = "''s2''"] p2 f2 s2
  have "fst (setUserSession ?u1 ''s2'' subscribed_world) = Returned ()" by blast
  then have c3: "setUserSession ?u1 ''s2'' subscribed_world = (Returned (), moved_world)"
    by (simp add: moved_world_def prod_eq_iff)
  from users_four_copies [where w = subscribed_world and u = ?u1 and sid = "''s2''"
      and ?r3.0 = "Returned ()" and ?w3.0 = moved_world] c3
  have f3: "four_copies (store moved_world) (?u1\<lparr>sessionId := ''s2''\<rparr>)" by auto
  from users_four_copies [where w = registered_world and u = ?u0
      and cs = "[SetSubscription True, SetSession ''s2'']"] p1 f1
  have f4: "four_copies
        (store (snd (user_calls [SetSubscription True, SetSession ''s2''] ?u0 registered_world)))
        (fst (user_calls [SetSubscription True, SetSession ''s2''] ?u0 registered_world))"
    and "getUserBySessionId (sessionId ?u0) registered_world = (VUser ?u0, registered_world)"
    by blast+
  then have l: "getUserBySessionId ''s1'' registered_world = (VUser ?u0, registered_world)"
    by (simp add: subscribed_def init_user_example_def)
  from c1 f1 p1 c2 f2 p2 s2 c3 f3 f4 l show ?thesis by blast
qed

subsection \<open>Batched lookup of users\<close>

lemma slice_take_drop: "slice arr i (i + n) = take n (drop i arr)"
  by (simp add: slice_def)

lemma batchify_from_total:
  "0 < n \<Longrightarrow> \<exists>bs. batchify_from arr n i = Some bs
      \<and> concat bs = drop i arr
      \<and> (\<forall>b\<in>set bs. length b \<le> n)
      \<and> length bs = (length arr - i + n - 1) div n"
proof (induction "length arr - i" arbitrary: i rule: less_induct)
  case less
  show ?case
  proof (cases "i < length arr")
    case False
    then have "batchify_from arr n i = Some []" by (subst batchify_from.simps) simp
    moreover from False less.prems have "(length arr - i + n - 1) div n = 0" by simp
    ultimately show ?thesis using False by simp
  next
    case True
    with less.prems have "length arr - (i + n) < length arr - i" by simp
    from less.hyps [OF this less.prems] obtain bs
      where bs: "batchify_from arr n (i + n) = Some bs" "concat bs = drop (i + n) arr"
        "\<forall>b\<in>set bs. length b \<le> n" "length bs = (length arr - (i + n) + n - 1) div n"
      by blast
    from True bs(1) have eq: "batchify_from arr n i = Some (slice arr i (i + n) # bs)"
      by (subst batchify_from.simps) simp
    have "take n (drop i arr) @ drop (i + n) arr = drop i arr"
      by (metis add.commute append_take_drop_id drop_drop)
    moreover have "Suc ((length arr - (i + n) + n - 1) div n) = (length arr - i + n - 1) div n"
    proof (cases "i + n \<le> length arr")
      case True
      define m where "m = length arr - (i + n) + n - 1"
      from True less.prems have "length arr - i + n - 1 = m + n" by (simp add: m_def)
      moreover from less.prems have "(m + n) div n = Suc (m div n)" by simp
      ultimately show ?thesis by (simp only: m_def)
    next
      case False
      with \<open>i < length arr\<close> less.prems
      have "(length arr - (i + n) + n - 1) div n = 0" "(length arr - i + n - 1) div n = 1"
        by (simp_all add: div_eq_dividend_iff le_div_geq)
      then show ?thesis by simp
    qed
    ultimately show ?thesis using eq bs by (simp add: slice_take_drop)
  qed
qed

lemma take_drop_nth_upt:
  "take n (drop i xs) = map ((!) xs) [i..<min (i + n) (length xs)]"
proof (rule nth_equalityI)
  show "length (take n (drop i xs)) = length (map ((!) xs) [i..<min (i + n) (length xs)])"
    by (auto simp: min_def)
next
  fix k assume "k < length (take n (drop i xs))"
  then have k: "k < n" "i + k < length xs" by auto
  then have "k < min (i + n) (length xs) - i" by (auto simp: min_def)
  then have "map ((!) xs) [i..<min (i + n) (length xs)] ! k = xs ! (i + k)"
    by (rule nth_map_upt)
  with k show "take n (drop i xs) ! k = map ((!) xs) [i..<min (i + n) (length xs)] ! k"
    by simp
qed

lemma upt_split_ten: "i < n \<Longrightarrow> [i..<n] = [i..<min (i + 10) n] @ [i + 10..<n]"
proof (cases "i + 10 \<le> n")
  case True
  then obtain d where "n = i + 10 + d" by (auto simp: le_iff_add)
  then show ?thesis using upt_add_eq_append [of i "i + 10" d] by (simp add: min_def)
next
  case False
  assume "i < n"
  with False show ?thesis by (simp add: min_def)
qed

lemma div_ten_step: "i + 10 \<le> j \<Longrightarrow> (j - i) div 10 = Suc ((j - (i + 10)) div (10::nat))"
proof -
  assume a: "i + 10 \<le> j"
  define m where "m = j - (i + 10)"
  from a have "j - i = m + 10" by (simp add: m_def)
  moreover have "(m + 10) div 10 = Suc (m div 10)" by simp
  ultimately show ?thesis by (simp only: m_def)
qed

lemma batch_count_step:
  assumes "i < len"
  shows "(len - i + 9) div 10 = Suc ((len - (i + 10) + 9) div (10::nat))"
proof (cases "i + 10 \<le> len")
  case True
  define m where "m = len - (i + 10) + 9"
  from True have "len - i + 9 = m + 10" by (simp add: m_def)
  moreover have "(m + 10) div 10 = Suc (m div 10)" by simp
  ultimately show ?thesis by (simp only: m_def)
next
  case False
  with assms have "(len - (i + 10) + 9) div 10 = 0" "(len - i + 9) div 10 = 1"
    by (simp_all add: div_eq_dividend_iff le_div_geq)
  then show ?thesis by simp
qed

lemma getMany_batches:
  "\<exists>bs. batchify_from keys 10 i = Some bs
      \<and> push_batches bs users w =
          (Returned (users @ map (\<lambda>j. e_value (entry_of (store ((suspend ^^ Suc ((j - i) div 10)) w)) (keys ! j)))
                                 [i..<length keys]),
           (suspend ^^ ((length keys - i + 9) div 10)) w)"
proof (induction "length keys - i" arbitrary: i users w rule: less_induct)
  case less
  show ?case
  proof (cases "i < length keys")
    case False
    then have "batchify_from keys 10 i = Some []" by (subst batchify_from.simps) simp
    with False show ?thesis by simp
  next
    case True
    define b where "b = slice keys i (i + 10)"
    define vals where "vals = map e_value (map (entry_of (store (suspend w))) b)"
    have b: "b = map ((!) keys) [i..<min (i + 10) (length keys)]"
      by (simp add: b_def slice_take_drop take_drop_nth_upt)
    have len_b: "length b \<le> 10" by (simp add: b_def slice_def)
    from True have "length keys - (i + 10) < length keys - i" by simp
    from less [OF this, of "users @ vals" "suspend w"] obtain bs
      where bs: "batchify_from keys 10 (i + 10) = Some bs"
        and rest: "push_batches bs (users @ vals) (suspend w) =
          (Returned ((users @ vals) @
             map (\<lambda>j. e_value (entry_of (store ((suspend ^^ Suc ((j - (i + 10)) div 10)) (suspend w))) (keys ! j)))
                 [i + 10..<length keys]),
           (suspend ^^ ((length keys - (i + 10) + 9) div 10)) (suspend w))"
      by blast
    from True bs have eq: "batchify_from keys 10 i = Some (b # bs)"
      by (subst batchify_from.simps) (simp add: b_def)
    from len_b have first: "push_batches (b # bs) users w = push_batches bs (users @ vals) (suspend w)"
      by (simp add: kv_getMany_def vals_def Let_def)
    have E1: "vals = map (\<lambda>j. e_value (entry_of (store ((suspend ^^ Suc ((j - i) div 10)) w)) (keys ! j)))
                 [i..<min (i + 10) (length keys)]"
    proof -
      have "map (\<lambda>j. e_value (entry_of (store (suspend w)) (keys ! j))) [i..<min (i + 10) (length keys)]
          = map (\<lambda>j. e_value (entry_of (store ((suspend ^^ Suc ((j - i) div 10)) w)) (keys ! j)))
                 [i..<min (i + 10) (length keys)]"
      proof (rule map_cong [OF refl])
        fix j assume "j \<in> set [i..<min (i + 10) (length keys)]"
        then have "(j - i) div 10 = 0" by auto
        then show "e_value (entry_of (store (suspend w)) (keys ! j))
          = e_value (entry_of (store ((suspend ^^ Suc ((j - i) div 10)) w)) (keys ! j))"
          by simp
      qed
      then show ?thesis unfolding vals_def b by (simp add: comp_def)
    qed
    have E2: "map (\<lambda>j. e_value (entry_of (store ((suspend ^^ Suc ((j - (i + 10)) div 10)) (suspend w))) (keys ! j)))
                 [i + 10..<length keys]
            = map (\<lambda>j. e_value (entry_of (store ((suspend ^^ Suc ((j - i) div 10)) w)) (keys ! j)))
                 [i + 10..<length keys]"
    proof (rule map_cong [OF refl])
      fix j assume "j \<in> set [i + 10..<length keys]"
      then have "i + 10 \<le> j" by simp
      then have "(j - i) div 10 = Suc ((j - (i + 10)) div 10)" by (rule div_ten_step)
      then show "e_value (entry_of (store ((suspend ^^ Suc ((j - (i + 10)) div 10)) (suspend w))) (keys ! j))
        = e_value (entry_of (store ((suspend ^^ Suc ((j - i) div 10)) w)) (keys ! j))"
        by (simp only: funpow_Suc_right o_apply)
    qed
    have E3: "[i..<length keys] = [i..<min (i + 10) (length keys)] @ [i + 10..<length keys]"
      using True by (rule upt_split_ten)
    have E4: "(suspend ^^ ((length keys - (i + 10) + 9) div 10)) (suspend w)
        = (suspend ^^ ((length keys - i + 9) div 10)) w"
      by (simp only: batch_count_step [OF True] funpow_Suc_right o_apply)
    have "push_batches (b # bs) users w =
          (Returned (users @ map (\<lambda>j. e_value (entry_of (store ((suspend ^^ Suc ((j - i) div 10)) w)) (keys ! j)))
                                 [i..<length keys]),
           (suspend ^^ ((length keys - i + 9) div 10)) w)"
      unfolding first rest E2 E4 by (subst E3) (simp add: E1)
    with eq show ?thesis by blast
  qed
qed

text \<open>
  Claim C10. \<^verbatim>\<open>getUsersByIds\<close> always returns, with one element for each identifier
  and in the order of the identifiers: element \<open>j\<close> is the value that the lookup of batch
  \<open>j div 10\<close> found under \<^verbatim>\<open>users/{ids[j]}\<close>, and it is \<^verbatim>\<open>null\<close> where nothing is
  stored. The call issues one \<^verbatim>\<open>getMany\<close> for every ten identifiers or part of ten.
\<close>

theorem getUsersByIds_aligned:
  "\<exists>users.
      getUsersByIds ids w = Some (Returned users, (suspend ^^ ((length ids + 9) div 10)) w)
    \<and> length users = length ids
    \<and> (\<forall>j<length ids.
          users ! j = e_value (entry_of (store ((suspend ^^ Suc (j div 10)) w)) [''users'', ids ! j]))
    \<and> (\<forall>j<length ids.
          store ((suspend ^^ Suc (j div 10)) w) [''users'', ids ! j] = None \<longrightarrow> users ! j = VNull)"
proof -
  define keys where "keys = map (\<lambda>i. [''users'', i]) ids"
  define users where
    "users = map (\<lambda>j. e_value (entry_of (store ((suspend ^^ Suc (j div 10)) w)) (keys ! j)))
                 [0..<length keys]"
  from getMany_batches [of keys 0 "[]" w] obtain bs
    where "batchify_from keys 10 0 = Some bs"
      and "push_batches bs [] w = (Returned users, (suspend ^^ ((length keys + 9) div 10)) w)"
    by (auto simp: users_def)
  then have run: "getUsersByIds ids w = Some (Returned users, (suspend ^^ ((length ids + 9) div 10)) w)"
    by (simp add: getUsersByIds_def batchify_def keys_def [symmetric]) (simp add: keys_def)
  have len: "length users = length ids" by (simp add: users_def keys_def)
  have nth: "users ! j = e_value (entry_of (store ((suspend ^^ Suc (j div 10)) w)) [''users'', ids ! j])"
    if "j < length ids" for j
    using that by (simp add: users_def keys_def)
  have null: "users ! j = VNull"
    if "j < length ids" "store ((suspend ^^ Suc (j div 10)) w) [''users'', ids ! j] = None" for j
    using nth [OF that(1)] that(2) by (simp add: entry_of_def)
  from run len nth null show ?thesis by blast
qed

theorem getUsersByIds_aligned_witness:
  "(0::nat) < length [''7'', ''8''] \<and> (1::nat) < length [''7'', ''8'']
   \<and> store ((suspend ^^ Suc (1 div 10)) users_world) [''users'', [''7'', ''8''] ! 1] = None
   \<and> getUsersByIds [''7'', ''8''] users_world
     = Some (Returned [VUser (subscribed init_user_example (Some False)), VNull], users_world)"
proof -
  have s: "suspend users_world = users_world" by (simp add: users_world_def suspend_def)
  have absent: "store ((suspend ^^ Suc (1 div 10)) users_world) [''users'', [''7'', ''8''] ! 1] = None"
    by (simp add: s) (simp add: users_world_def)
  from getUsersByIds_aligned [of "[''7'', ''8'']" users_world] obtain users
    where run: "getUsersByIds [''7'', ''8''] users_world
                  = Some (Returned users, (suspend ^^ ((length [''7'', ''8''] + 9) div 10)) users_world)"
      and len: "length users = length [''7'', ''8'']"
      and nth: "\<forall>j<length [''7'', ''8''].
          users ! j = e_value (entry_of (store ((suspend ^^ Suc (j div 10)) users_world))
                                [''users'', [''7'', ''8''] ! j])"
      and null: "\<forall>j<length [''7'', ''8''].
          store ((suspend ^^ Suc (j div 10)) users_world) [''users'', [''7'', ''8''] ! j] = None
            \<longrightarrow> users ! j = VNull"
    by blast
  from nth have "users ! 0 = VUser (subscribed init_user_example (Some False))"
    by (simp add: s) (simp add: users_world_def entry_of_def)
  moreover from null absent have "users ! 1 = VNull" by simp
  moreover from len obtain a b where "users = [a, b]"
    by (cases users; cases "tl users") auto
  ultimately have "users = [VUser (subscribed init_user_example (Some False)), VNull]" by simp
  with run absent show ?thesis by (simp add: s)
qed

end
